theory Spec2Isabelle
  imports Complex_Main "HOL-Library.AList"
begin

section \<open>Python values used by the program\<close>

text \<open>
  Python \<^verbatim>\<open>bytes\<close> and \<^verbatim>\<open>str\<close> are lists of 8-bit characters.  A Python
  \<^verbatim>\<open>float\<close> is a finite value, an infinity or a NaN; the program only ever compares a
  float with \<^verbatim>\<open>0.0\<close>, and every comparison with a NaN is false.
\<close>

type_synonym bytes = "char list"

datatype pyfloat = Finite real | PosInf | NegInf | NaN

fun float_le_zero :: "pyfloat \<Rightarrow> bool" where
  "float_le_zero (Finite r) = (r \<le> 0)"
| "float_le_zero PosInf = False"
| "float_le_zero NegInf = True"
| "float_le_zero NaN = False"

section \<open>utilities/video\_validator.py: validate\_video\<close>

text \<open>
  \<^verbatim>\<open>IMAGE_CODECS = {"webp", "png", "jpeg", "mjpeg", "gif", "bmp"}\<close>
\<close>

definition IMAGE_CODECS :: "string list" where
  "IMAGE_CODECS = [''webp'', ''png'', ''jpeg'', ''mjpeg'', ''gif'', ''bmp'']"

text \<open>
  \<^verbatim>\<open>validate_video\<close> calls \<^verbatim>\<open>get_video_info\<close> (one run of the external probe) and decides
  on its result, which is \<^verbatim>\<open>None\<close> or a triple (frames, duration, codec name).  The probe
  result is the argument of the model.
\<close>

type_synonym video_info = "int \<times> pyfloat \<times> string"

fun validate_video :: "video_info option \<Rightarrow> bool \<times> int \<times> pyfloat" where
  "validate_video None = (False, 0, Finite 0)"
| "validate_video (Some (frames, duration, codec_name)) =
     (if codec_name \<in> set IMAGE_CODECS then (False, frames, duration)
      else if codec_name = ''vp9'' then (True, frames, duration)
      else if float_le_zero duration then (False, frames, duration)
      else if frames \<le> 1 then (False, frames, duration)
      else (True, frames, duration))"

section \<open>core/retry\_queue.py\<close>

text \<open>
  An \<^verbatim>\<open>ApiItem\<close> is a dictionary of which the program reads the key \<^verbatim>\<open>url\<close> only
  (\<^verbatim>\<open>item.get("url")\<close>, \<^verbatim>\<open>None\<close> when the key is absent).
\<close>

record ApiItem =
  api_url :: "string option"

record FailedDownload =
  fd_item :: ApiItem
  fd_creator :: string
  fd_url :: string
  fd_out_path :: string
  retry_count :: int
  last_error :: string

record RetryQueueConfig =
  max_retries :: int
  retry_delay_sec :: pyfloat
  download_timeout :: int

text \<open>
  The download function handed to the queue returns a truth value or raises an exception.
  It may depend on what happened before (a function that fails once and then succeeds), so
  the model gives it the number of calls made so far.  The calls made by the queue are
  recorded in \<open>attempts\<close>, which the source does not store: it is the trace of the calls of
  \<^verbatim>\<open>self._download_func\<close>.
\<close>

datatype dl_outcome = Returned bool | Raised string

type_synonym download_func = "nat \<Rightarrow> ApiItem \<Rightarrow> string \<Rightarrow> string \<Rightarrow> dl_outcome"

record RetryQueue =
  rq_config :: RetryQueueConfig
  rq_queue :: "FailedDownload list"
  rq_stop_event :: bool
  rq_successful_retries :: nat
  rq_permanently_failed :: "FailedDownload list"
  rq_is_running :: bool
  attempts :: "(ApiItem \<times> string \<times> string) list"

definition RetryQueue_init :: "RetryQueueConfig \<Rightarrow> RetryQueue" where
  "RetryQueue_init config =
     \<lparr>rq_config = config, rq_queue = [], rq_stop_event = False, rq_successful_retries = 0,
      rq_permanently_failed = [], rq_is_running = False, attempts = []\<rparr>"

definition rq_add :: "ApiItem \<Rightarrow> string \<Rightarrow> string \<Rightarrow> string \<Rightarrow> string \<Rightarrow> RetryQueue \<Rightarrow> RetryQueue"
  where
  "rq_add item creator url out_path error q =
     q\<lparr>rq_queue := rq_queue q @
        [\<lparr>fd_item = item, fd_creator = creator, fd_url = url, fd_out_path = out_path,
          retry_count = 1, last_error = error\<rparr>]\<rparr>"

record queue_stats =
  pending :: nat
  successful :: nat
  failed :: nat

definition get_stats :: "RetryQueue \<Rightarrow> queue_stats" where
  "get_stats q =
     \<lparr>pending = length (rq_queue q), successful = rq_successful_retries q,
      failed = length (rq_permanently_failed q)\<rparr>"

text \<open>\<^verbatim>\<open>_process_item\<close>: one call of the download function, then success, re-queue or give up.\<close>

definition process_failure :: "FailedDownload \<Rightarrow> RetryQueue \<Rightarrow> RetryQueue" where
  "process_failure fd q =
     (let fd' = fd\<lparr>retry_count := retry_count fd + 1\<rparr> in
      if retry_count fd' \<ge> max_retries (rq_config q)
      then q\<lparr>rq_permanently_failed := rq_permanently_failed q @ [fd']\<rparr>
      else q\<lparr>rq_queue := rq_queue q @ [fd']\<rparr>)"

definition process_item :: "download_func \<Rightarrow> FailedDownload \<Rightarrow> RetryQueue \<Rightarrow> RetryQueue" where
  "process_item dl fd q =
     (let outcome = dl (length (attempts q)) (fd_item fd) (fd_creator fd) (fd_out_path fd);
          q1 = q\<lparr>attempts := attempts q @ [(fd_item fd, fd_creator fd, fd_out_path fd)]\<rparr>
      in case outcome of
           Returned True \<Rightarrow> q1\<lparr>rq_successful_retries := rq_successful_retries q1 + 1\<rparr>
         | Returned False \<Rightarrow> process_failure fd q1
         | Raised e \<Rightarrow> process_failure (fd\<lparr>last_error := e\<rparr>) q1)"

text \<open>
  One iteration of the body of \<^verbatim>\<open>_worker_loop\<close>: \<^verbatim>\<open>_get_next_item\<close> pops the front of
  the queue; on an empty queue the worker sleeps and the state is unchanged.
\<close>

definition worker_iteration :: "download_func \<Rightarrow> RetryQueue \<Rightarrow> RetryQueue" where
  "worker_iteration dl q =
     (case rq_queue q of
        [] \<Rightarrow> q
      | fd # rest \<Rightarrow> process_item dl fd (q\<lparr>rq_queue := rest\<rparr>))"

text \<open>
  The worker thread repeats the iteration until the stop event is set; \<open>worker_loop n\<close> is the
  state after the thread has been given time for \<open>n\<close> iterations.
\<close>

fun worker_loop :: "nat \<Rightarrow> download_func \<Rightarrow> RetryQueue \<Rightarrow> RetryQueue" where
  "worker_loop 0 dl q = q"
| "worker_loop (Suc n) dl q =
     (if rq_stop_event q then q else worker_loop n dl (worker_iteration dl q))"

definition always_fails :: "download_func \<Rightarrow> bool" where
  "always_fails dl = (\<forall>n item creator out_path. dl n item creator out_path \<noteq> Returned True)"

text \<open>
  The two shapes of the queue while one item that never downloads is retried: the item is
  waiting with retry count \<open>c\<close> after \<open>a\<close> attempts, or it has been given up with retry
  count \<open>c\<close> after \<open>a\<close> attempts.
\<close>

definition pending_state :: "RetryQueueConfig \<Rightarrow> RetryQueue \<Rightarrow> int \<Rightarrow> nat \<Rightarrow> bool" where
  "pending_state cfg q c a =
     (rq_config q = cfg \<and> \<not> rq_stop_event q \<and> length (rq_queue q) = 1
      \<and> retry_count (hd (rq_queue q)) = c \<and> rq_permanently_failed q = []
      \<and> rq_successful_retries q = 0 \<and> length (attempts q) = a)"

definition failed_state :: "RetryQueueConfig \<Rightarrow> RetryQueue \<Rightarrow> int \<Rightarrow> nat \<Rightarrow> bool" where
  "failed_state cfg q c a =
     (rq_config q = cfg \<and> \<not> rq_stop_event q \<and> rq_queue q = []
      \<and> length (rq_permanently_failed q) = 1
      \<and> retry_count (hd (rq_permanently_failed q)) = c
      \<and> rq_successful_retries q = 0 \<and> length (attempts q) = a)"

text \<open>A download function that returns \<^verbatim>\<open>False\<close> at every call.\<close>

definition never_ok :: download_func where
  "never_ok n item creator out_path = Returned False"

section \<open>Paths and the file system\<close>

text \<open>
  A path is a string with \<^verbatim>\<open>/\<close> between its components (\<^verbatim>\<open>pathlib\<close> on a POSIX host).
  \<open>path_name\<close>, \<open>path_parent\<close>, \<open>path_suffix\<close> and \<open>with_suffix\<close> are \<^verbatim>\<open>Path.name\<close>,
  \<^verbatim>\<open>Path.parent\<close>, \<^verbatim>\<open>Path.suffix\<close> and \<^verbatim>\<open>Path.with_suffix\<close>: the suffix starts at the last
  dot of the name, unless that dot is the first or the last character of the name.
  \<open>lower\<close> is \<^verbatim>\<open>str.lower\<close> on ASCII text.
\<close>

type_synonym path = string

definition path_name :: "path \<Rightarrow> string" where
  "path_name p = rev (takeWhile (\<lambda>c. c \<noteq> CHR ''/'') (rev p))"

definition path_parent :: "path \<Rightarrow> path" where
  "path_parent p = rev (drop 1 (dropWhile (\<lambda>c. c \<noteq> CHR ''/'') (rev p)))"

definition path_join :: "path \<Rightarrow> string \<Rightarrow> path" where
  "path_join d n = d @ ''/'' @ n"

definition path_suffix :: "path \<Rightarrow> string" where
  "path_suffix p =
     (let name = path_name p;
          after_dot = takeWhile (\<lambda>c. c \<noteq> CHR ''.'') (rev name)
      in if CHR ''.'' \<notin> set name then []
         else if length after_dot + 1 < length name \<and> after_dot \<noteq> []
         then CHR ''.'' # rev after_dot
         else [])"

definition with_suffix :: "path \<Rightarrow> string \<Rightarrow> path" where
  "with_suffix p ext = take (length p - length (path_suffix p)) p @ ext"

definition lower_char :: "char \<Rightarrow> char" where
  "lower_char c =
     (case map_of (zip ''ABCDEFGHIJKLMNOPQRSTUVWXYZ'' ''abcdefghijklmnopqrstuvwxyz'') c of
        None \<Rightarrow> c
      | Some d \<Rightarrow> d)"

definition lower :: "string \<Rightarrow> string" where
  "lower s = map lower_char s"

text \<open>
  The file system: the regular files with their content (an association list, one entry per
  path), the directories, and the paths on which the operating system refuses an operation
  (the call raises \<^verbatim>\<open>OSError\<close>).
\<close>

record filesystem =
  files :: "(path \<times> bytes) list"
  dirs :: "path list"
  read_denied :: "path list"
  write_denied :: "path list"
  rename_denied :: "path list"
  unlink_denied :: "path list"

definition is_file :: "filesystem \<Rightarrow> path \<Rightarrow> bool" where
  "is_file fs p = (map_of (files fs) p \<noteq> None)"

definition is_dir :: "filesystem \<Rightarrow> path \<Rightarrow> bool" where
  "is_dir fs p = (p \<in> set (dirs fs))"

definition path_exists :: "filesystem \<Rightarrow> path \<Rightarrow> bool" where
  "path_exists fs p = (is_file fs p \<or> is_dir fs p)"

text \<open>\<^verbatim>\<open>open(p, 'rb').read(n)\<close>: \<open>None\<close> stands for the \<^verbatim>\<open>OSError\<close> (also raised on a directory).\<close>

definition read_bytes :: "filesystem \<Rightarrow> path \<Rightarrow> nat \<Rightarrow> bytes option" where
  "read_bytes fs p n =
     (if p \<in> set (read_denied fs) then None
      else case map_of (files fs) p of None \<Rightarrow> None | Some content \<Rightarrow> Some (take n content))"

text \<open>
  \<^verbatim>\<open>Path.rename\<close>: \<open>None\<close> stands for the \<^verbatim>\<open>OSError\<close>.  The content moves to the new
  path and replaces what was there.
\<close>

definition os_rename :: "filesystem \<Rightarrow> path \<Rightarrow> path \<Rightarrow> filesystem option" where
  "os_rename fs src dst =
     (if src \<in> set (rename_denied fs) then None
      else case map_of (files fs) src of
             None \<Rightarrow> None
           | Some content \<Rightarrow>
               if dst = src then Some fs
               else Some (fs\<lparr>files := (dst, content) # filter (\<lambda>(q, _). q \<noteq> src \<and> q \<noteq> dst) (files fs)\<rparr>))"

text \<open>\<^verbatim>\<open>Path.unlink\<close>: \<open>None\<close> stands for the \<^verbatim>\<open>OSError\<close>.\<close>

definition os_unlink :: "filesystem \<Rightarrow> path \<Rightarrow> filesystem option" where
  "os_unlink fs p =
     (if p \<in> set (unlink_denied fs) \<or> \<not> is_file fs p then None
      else Some (fs\<lparr>files := filter (\<lambda>(q, _). q \<noteq> p) (files fs)\<rparr>))"

section \<open>utilities/extension\_handler.py\<close>

type_synonym format = "string \<times> string \<times> string"

definition SIGNATURES :: "(bytes \<times> format) list" where
  "SIGNATURES =
     [([CHR 0xFF, CHR 0xD8, CHR 0xFF], (''image'', ''JPEG'', ''.jpg'')),
      (CHR 0x89 # ''PNG'' @ [CHR 0x0D, CHR 0x0A, CHR 0x1A, CHR 0x0A], (''image'', ''PNG'', ''.png'')),
      (''GIF87a'', (''image'', ''GIF'', ''.gif'')),
      (''GIF89a'', (''image'', ''GIF'', ''.gif'')),
      (''BM'', (''image'', ''BMP'', ''.bmp'')),
      (''II*'' @ [CHR 0x00], (''image'', ''TIFF'', ''.tiff'')),
      (''MM'' @ [CHR 0x00] @ ''*'', (''image'', ''TIFF'', ''.tiff'')),
      ([CHR 0x00, CHR 0x00, CHR 0x01, CHR 0x00], (''image'', ''ICO'', ''.ico'')),
      ([CHR 0xFF, CHR 0xFB], (''audio'', ''MP3'', ''.mp3'')),
      (''ID3'', (''audio'', ''MP3'', ''.mp3'')),
      ([CHR 0x1A, CHR 0x45, CHR 0xDF, CHR 0xA3], (''video'', ''WebM/MKV'', ''.webm'')),
      (''ftypisom'', (''video'', ''MP4'', ''.mp4'')),
      (''ftypmp42'', (''video'', ''MP4'', ''.mp4'')),
      (''ftypqt'' @ [CHR 0x00], (''video'', ''MOV'', ''.mov'')),
      (''flac'', (''audio'', ''FLAC'', ''.flac'')),
      (''OggS'', (''audio'', ''OGG'', ''.ogg'')),
      ([CHR 0x00, CHR 0x00, CHR 0x00] @ '' ftypheic'', (''image'', ''HEIC'', ''.heic''))]"

definition RIFF_SIGNATURES :: "(bytes \<times> format) list" where
  "RIFF_SIGNATURES =
     [(''WAVE'', (''audio'', ''WAV'', ''.wav'')),
      (''AVI '', (''video'', ''AVI'', ''.avi'')),
      (''WEBP'', (''image'', ''WebP'', ''.webp''))]"

definition startswith :: "bytes \<Rightarrow> bytes \<Rightarrow> bool" where
  "startswith s p = (take (length p) s = p)"

text \<open>
  The three blocks of \<^verbatim>\<open>detect_format\<close> on the header read from the file; each returns
  \<open>None\<close> when the code falls through to the next block.
\<close>

definition riff_check :: "bytes \<Rightarrow> format option" where
  "riff_check header =
     (if startswith header ''RIFF'' \<and> length header > 12
      then map_of RIFF_SIGNATURES (take 4 (drop 8 header))
      else None)"

definition ftyp_check :: "bytes \<Rightarrow> format option" where
  "ftyp_check header =
     (if length header > 8 \<and> take 4 (drop 4 header) = ''ftyp''
      then (let ftyp_code = take 4 (drop 8 header) in
            if startswith ftyp_code ''isom'' \<or> startswith ftyp_code ''mp4''
            then Some (''video'', ''MP4'', ''.mp4'')
            else if startswith ftyp_code ''qt'' then Some (''video'', ''MOV'', ''.mov'')
            else if startswith ftyp_code ''heic'' then Some (''image'', ''HEIC'', ''.heic'')
            else None)
      else None)"

fun signature_scan :: "(bytes \<times> format) list \<Rightarrow> bytes \<Rightarrow> format option" where
  "signature_scan [] header = None"
| "signature_scan ((magic_sig, fmt) # rest) header =
     (if startswith header magic_sig then Some fmt else signature_scan rest header)"

definition detect_header :: "bytes \<Rightarrow> format option" where
  "detect_header header =
     (if header = [] then None
      else case riff_check header of
             Some fmt \<Rightarrow> Some fmt
           | None \<Rightarrow>
              (case ftyp_check header of
                 Some fmt \<Rightarrow> Some fmt
               | None \<Rightarrow> signature_scan SIGNATURES header))"

definition detect_format :: "filesystem \<Rightarrow> path \<Rightarrow> format option" where
  "detect_format fs file_path =
     (if \<not> path_exists fs file_path then None
      else case read_bytes fs file_path 512 of
             None \<Rightarrow> None
           | Some header \<Rightarrow> detect_header header)"

text \<open>\<^verbatim>\<open>get_correct_extension\<close>; an absent or empty \<^verbatim>\<open>audio_extensions\<close> adds nothing.\<close>

definition format_variants :: "(string \<times> string list) list" where
  "format_variants =
     [(''JPEG'', [''.jpg'', ''.jpeg'']),
      (''TIFF'', [''.tiff'', ''.tif'']),
      (''MP3'', [''.mp3'']),
      (''OGG'', [''.ogg'', ''.oga'', ''.ogv''])]"

definition get_correct_extension ::
  "filesystem \<Rightarrow> path \<Rightarrow> string list \<Rightarrow> string list \<Rightarrow> string list option \<Rightarrow> string option" where
  "get_correct_extension fs file_path image_extensions video_extensions audio_extensions =
     (case detect_format fs file_path of
        None \<Rightarrow> None
      | Some (media_type, format_name, detected_ext) \<Rightarrow>
          (let all_extensions = image_extensions @ video_extensions @
                 (case audio_extensions of None \<Rightarrow> [] | Some a \<Rightarrow> a)
           in if detected_ext \<in> set all_extensions then Some detected_ext
              else case map_of format_variants format_name of
                     None \<Rightarrow> None
                   | Some variants \<Rightarrow> find (\<lambda>v. v \<in> set all_extensions) variants))"

text \<open>
  \<^verbatim>\<open>validate_and_correct_file\<close> returns the path and, since it may rename the file, the file
  system after the call.
\<close>

definition validate_and_correct_file ::
  "filesystem \<Rightarrow> path \<Rightarrow> string list \<Rightarrow> string list \<Rightarrow> string list option \<Rightarrow> bool
     \<Rightarrow> path \<times> filesystem" where
  "validate_and_correct_file fs file_path image_extensions video_extensions audio_extensions
       apply_rename =
     (case detect_format fs file_path of
        None \<Rightarrow> (file_path, fs)
      | Some (media_type, format_name, detected_ext) \<Rightarrow>
          (let current_ext = lower (path_suffix file_path) in
           if current_ext = detected_ext then (file_path, fs)
           else case get_correct_extension fs file_path image_extensions video_extensions
                       audio_extensions of
                  None \<Rightarrow> (file_path, fs)
                | Some correct_ext \<Rightarrow>
                    if correct_ext = [] \<or> current_ext = correct_ext then (file_path, fs)
                    else if \<not> apply_rename then (file_path, fs)
                    else (let new_path = with_suffix file_path correct_ext in
                          if path_exists fs new_path \<and> new_path \<noteq> file_path then (file_path, fs)
                          else case os_rename fs file_path new_path of
                                 None \<Rightarrow> (file_path, fs)
                               | Some fs' \<Rightarrow> (new_path, fs'))))"

section \<open>utilities/video\_validator.py: validate\_image\<close>

definition validate_image :: "filesystem \<Rightarrow> path \<Rightarrow> bool \<times> int \<times> pyfloat" where
  "validate_image fs image_path =
     (if \<not> path_exists fs image_path \<or> \<not> is_file fs image_path then (False, 0, Finite 0)
      else case detect_format fs image_path of
             None \<Rightarrow> (False, 0, Finite 0)
           | Some (media_type, format_name, detected_ext) \<Rightarrow>
               (media_type = ''image'', 1, Finite 0))"

text \<open>A file system that holds the given regular files and refuses nothing.\<close>

definition plain_fs :: "(path \<times> bytes) list \<Rightarrow> filesystem" where
  "plain_fs fl =
     \<lparr>files = fl, dirs = [], read_denied = [], write_denied = [], rename_denied = [],
      unlink_denied = []\<rparr>"

section \<open>core/extension\_tracker.py\<close>

text \<open>
  A Python dictionary is an association list with one entry per key, in insertion order:
  \<open>map_of\<close> looks a key up, \<open>AList.update\<close> assigns (in place for a key that is present, at
  the end for a new key) and \<open>AList.delete\<close> removes a key.

  \<^verbatim>\<open>ExtensionCorrectionTracker._corrections\<close> is a dictionary from the path string to the pair
  (old extension, new extension); \<^verbatim>\<open>record\<close> stores under \<^verbatim>\<open>str(file_path)\<close>.
\<close>

type_synonym tracker = "(string \<times> string \<times> string) list"

definition tracker_record :: "tracker \<Rightarrow> path \<Rightarrow> string \<Rightarrow> string \<Rightarrow> tracker" where
  "tracker_record t file_path old_extension new_extension =
     AList.update file_path (old_extension, new_extension) t"

definition get_correction :: "tracker \<Rightarrow> path \<Rightarrow> (string \<times> string) option" where
  "get_correction t file_path = map_of t file_path"

section \<open>utilities/media.py\<close>

definition CIVITAI_CDN_ID :: string where
  "CIVITAI_CDN_ID = ''xG1nkqKTMzGDvpLrqFT7WA''"

definition CIVITAI_IMAGE_API_BASE :: string where
  "CIVITAI_IMAGE_API_BASE = ''https://image.civitai.com''"

definition CIVITAI_VIDEO_PARAMS :: string where
  "CIVITAI_VIDEO_PARAMS = ''original-video=true,quality=100''"

text \<open>
  \<^verbatim>\<open>os.path.splitext\<close>: the extension starts at the last dot of the last component, provided
  a character other than a dot comes before it in that component.
\<close>

definition splitext :: "string \<Rightarrow> string \<times> string" where
  "splitext p =
     (let name = path_name p in
      if CHR ''.'' \<notin> set name then (p, [])
      else (let ext = CHR ''.'' # rev (takeWhile (\<lambda>c. c \<noteq> CHR ''.'') (rev name));
                stem = take (length name - length ext) name
            in if list_ex (\<lambda>c. c \<noteq> CHR ''.'') stem
               then (take (length p - length ext) p, ext)
               else (p, [])))"

text \<open>\<^verbatim>\<open>sub in s\<close> on strings.\<close>

fun contains :: "string \<Rightarrow> string \<Rightarrow> bool" where
  "contains [] sub = (sub = [])"
| "contains (c # cs) sub = (startswith (c # cs) sub \<or> contains cs sub)"

definition unsafe_characters :: "char list" where
  "unsafe_characters =
     [CHR ''<'', CHR ''>'', CHR '':'', CHR 0x22, CHR ''/'', CHR 0x5C, CHR ''|'', CHR ''?'', CHR ''*'']"

text \<open>
  The functions below take \<open>url_path\<close>, the function \<^verbatim>\<open>lambda url: urlparse(url).path\<close> of the
  standard library, as a parameter.
\<close>

definition safe_filename_from_url :: "(string \<Rightarrow> string) \<Rightarrow> string \<Rightarrow> string" where
  "safe_filename_from_url url_path url =
     (let base = path_name (url_path url);
          filename = (if base = [] then ''file.bin'' else base)
      in map (\<lambda>ch. if ch \<in> set unsafe_characters then CHR ''_'' else ch) filename)"

definition get_extension_from_url :: "(string \<Rightarrow> string) \<Rightarrow> string \<Rightarrow> string" where
  "get_extension_from_url url_path url =
     (let ext = lower (snd (splitext (url_path url))) in if ext = [] then ''.bin'' else ext)"

definition media_type_from_extension :: "string \<Rightarrow> string list \<Rightarrow> string list \<Rightarrow> string" where
  "media_type_from_extension ext image_extensions video_extensions =
     (if ext \<in> set image_extensions then ''Images''
      else if ext \<in> set video_extensions then ''Videos''
      else ''Other'')"

definition update_video_url :: "(string \<Rightarrow> string) \<Rightarrow> string \<Rightarrow> string list \<Rightarrow> string" where
  "update_video_url url_path url video_extensions =
     (let ext = get_extension_from_url url_path url in
      if ext \<notin> set video_extensions then url
      else if \<not> contains url ''civitai.com'' then url
      else if (contains url ''original-video=true'' \<or> contains url ''original=true'')
              \<and> contains url ''quality=100'' then url
      else (let filename = safe_filename_from_url url_path url;
                media_api_id = fst (splitext filename)
            in CIVITAI_IMAGE_API_BASE @ ''/'' @ CIVITAI_CDN_ID @ ''/'' @ media_api_id @ ''/'' @
               CIVITAI_VIDEO_PARAMS @ ''/'' @ media_api_id @ ext))"

text \<open>
  A stand-in for \<^verbatim>\<open>urlparse(url).path\<close> on URLs of the form
  \<^verbatim>\<open>http(s)://host/path?query#fragment\<close>, used where a concrete function is needed.
\<close>

definition simple_url_path :: "string \<Rightarrow> string" where
  "simple_url_path url =
     (let u = takeWhile (\<lambda>c. c \<noteq> CHR ''?'' \<and> c \<noteq> CHR ''#'') url in
      if startswith u ''https://'' then dropWhile (\<lambda>c. c \<noteq> CHR ''/'') (drop 8 u)
      else if startswith u ''http://'' then dropWhile (\<lambda>c. c \<noteq> CHR ''/'') (drop 7 u)
      else u)"

section \<open>core/downloader.py and core/file\_manager.py\<close>

datatype LockPolicy = BEST_EFFORT | BLOCK | FAIL

text \<open>
  The configuration of a \<^verbatim>\<open>MediaDownloader\<close> and of its \<^verbatim>\<open>FileManager\<close>.
  \<open>lock_primitive\<close> says whether one of the modules \<^verbatim>\<open>msvcrt\<close> and \<^verbatim>\<open>fcntl\<close> could be
  imported.
\<close>

record downloader =
  output_folder :: path
  video_extensions :: "string list"
  image_extensions :: "string list"
  dl_download_timeout :: int
  dl_max_retries :: int
  retry_backoff_sec :: int
  memory_threshold_bytes :: int
  lock_policy :: LockPolicy
  enable_retry_queue :: bool
  lock_primitive :: bool
  url_path :: "string \<Rightarrow> string"

text \<open>
  What the network answers.  \<^verbatim>\<open>request_with_retries\<close> returns a response or raises; the
  body of a response is the sequence of what \<^verbatim>\<open>iter_content\<close> does: it yields chunks, and
  it may raise an exception or be interrupted by the user (\<^verbatim>\<open>KeyboardInterrupt\<close>).
  \<open>content_length\<close> is the header \<^verbatim>\<open>Content-Length\<close> converted by \<^verbatim>\<open>int\<close>, \<open>None\<close> when the
  header is absent or is not a number.
\<close>

datatype stream_event = Chunk bytes | StreamError string | StreamInterrupt

datatype net_result =
    RequestFails string
  | RequestInterrupted
  | Response (content_length: "int option") (body: "stream_event list")

text \<open>
  The environment of a run: the answer to the \<open>n\<close>-th request, by URL, and the paths on which
  a non-blocking lock would be refused because another process holds it.
\<close>

record environment =
  net :: "nat \<Rightarrow> string \<Rightarrow> net_result"
  lock_held :: "path list"

text \<open>
  The state that \<^verbatim>\<open>download_files\<close> reads and changes: the file system, the shared tracker,
  \<^verbatim>\<open>self.downloaded_extensions\<close> and the retry queue (\<open>None\<close> when the downloader was built
  without one).  \<open>requests\<close> and \<open>writes\<close> are traces that the source does not keep: the URLs
  given to \<^verbatim>\<open>request_with_retries\<close> when it issues a request, and the paths opened for
  writing.
\<close>

record dl_state =
  st_fs :: filesystem
  st_tracker :: tracker
  downloaded_extensions :: "(string \<times> int) list"
  st_retry_queue :: "RetryQueue option"
  requests :: "string list"
  writes :: "path list"

definition MediaDownloader_init :: "downloader \<Rightarrow> filesystem \<Rightarrow> tracker \<Rightarrow> dl_state" where
  "MediaDownloader_init d fs t =
     \<lparr>st_fs = fs, st_tracker = t, downloaded_extensions = [],
      st_retry_queue =
        (if enable_retry_queue d
         then Some (RetryQueue_init
                \<lparr>max_retries = dl_max_retries d,
                 retry_delay_sec = Finite (of_int (retry_backoff_sec d)),
                 download_timeout = dl_download_timeout d\<rparr>)
         else None),
      requests = [], writes = []\<rparr>"

text \<open>
  \<^verbatim>\<open>mkdir(parents=True, exist_ok=True)\<close>; \<open>None\<close> stands for the \<^verbatim>\<open>OSError\<close> raised when a
  regular file is in the way.  Only the directory itself is entered, not its ancestors.
\<close>

definition os_mkdir :: "filesystem \<Rightarrow> path \<Rightarrow> filesystem option" where
  "os_mkdir fs d =
     (if is_dir fs d then Some fs
      else if is_file fs d then None
      else Some (fs\<lparr>dirs := d # dirs fs\<rparr>))"

text \<open>
  \<^verbatim>\<open>open(p, "wb")\<close> followed by writing \<open>content\<close>; \<open>None\<close> stands for the \<^verbatim>\<open>OSError\<close> of
  \<^verbatim>\<open>open\<close>.
\<close>

definition os_write :: "filesystem \<Rightarrow> path \<Rightarrow> bytes \<Rightarrow> filesystem option" where
  "os_write fs p content =
     (if p \<in> set (write_denied fs) \<or> is_dir fs p then None
      else Some (fs\<lparr>files := (p, content) # filter (\<lambda>(q, _). q \<noteq> p) (files fs)\<rparr>))"

text \<open>\<^verbatim>\<open>FileManager.get_media_folder\<close> and \<^verbatim>\<open>FileManager.get_output_path\<close>, without the
  \<^verbatim>\<open>mkdir\<close>, which \<open>download_item\<close> performs.\<close>

definition media_folder :: "downloader \<Rightarrow> string \<Rightarrow> string \<Rightarrow> path" where
  "media_folder d creator url =
     path_join (path_join (output_folder d) creator)
       (media_type_from_extension (get_extension_from_url (url_path d) url)
          (image_extensions d) (video_extensions d))"

definition output_path :: "downloader \<Rightarrow> string \<Rightarrow> string \<Rightarrow> path" where
  "output_path d creator url =
     path_join (media_folder d creator url) (safe_filename_from_url (url_path d) url)"

text \<open>
  \<^verbatim>\<open>request_with_retries\<close>: with \<^verbatim>\<open>max_retries <= 0\<close> the loop body never runs and the
  function raises without a request; otherwise the environment gives the final outcome of the
  transport-level attempts.
\<close>

definition request_with_retries ::
  "environment \<Rightarrow> int \<Rightarrow> string \<Rightarrow> dl_state \<Rightarrow> net_result \<times> dl_state" where
  "request_with_retries env retries url s =
     (if retries \<le> 0 then (RequestFails ''Request failed'', s)
      else (net env (length (requests s)) url, s\<lparr>requests := requests s @ [url]\<rparr>))"

text \<open>
  Reading the body: the chunks received before the stream ends, fails or is interrupted.
\<close>

datatype stream_end = Finished | Failed string | Interrupted_stream

fun read_stream :: "stream_event list \<Rightarrow> bytes \<times> stream_end" where
  "read_stream [] = ([], Finished)"
| "read_stream (Chunk b # rest) = (let (buf, e) = read_stream rest in (b @ buf, e))"
| "read_stream (StreamError msg # rest) = ([], Failed msg)"
| "read_stream (StreamInterrupt # rest) = ([], Interrupted_stream)"

text \<open>
  The block that follows a write in both branches: validate and correct the extension, record
  a correction under \<^verbatim>\<open>str(out_path)\<close>, continue with the corrected path, and count the
  extension in \<^verbatim>\<open>downloaded_extensions\<close>.  It returns the current value of \<^verbatim>\<open>out_path\<close>.
\<close>

definition correct_and_count :: "downloader \<Rightarrow> path \<Rightarrow> dl_state \<Rightarrow> path \<times> dl_state" where
  "correct_and_count d out_path s =
     (let (corrected_path, fs') =
            validate_and_correct_file (st_fs s) out_path (image_extensions d) (video_extensions d)
              None True;
          s1 = s\<lparr>st_fs := fs'\<rparr>;
          s2 = (if corrected_path \<noteq> out_path
                then s1\<lparr>st_tracker := tracker_record (st_tracker s1) out_path
                         (lower (path_suffix out_path)) (lower (path_suffix corrected_path))\<rparr>
                else s1);
          ext = lower (path_suffix corrected_path)
      in (corrected_path,
          s2\<lparr>downloaded_extensions :=
                AList.update ext
                  ((case map_of (downloaded_extensions s2) ext of None \<Rightarrow> 0 | Some n \<Rightarrow> n) + 1)
                  (downloaded_extensions s2)\<rparr>))"

text \<open>
  The body of the \<^verbatim>\<open>try\<close> statement for one item.  The result says how the body was left and
  gives the value of the variable \<^verbatim>\<open>out_path\<close> at that moment.
\<close>

datatype attempt_result =
    Completed path
  | Raised_Exception string path
  | Raised_KeyboardInterrupt path

definition buffered_download ::
  "downloader \<Rightarrow> path \<Rightarrow> stream_event list \<Rightarrow> dl_state \<Rightarrow> attempt_result \<times> dl_state" where
  "buffered_download d out_path events s =
     (case read_stream events of
        (buf, Failed msg) \<Rightarrow> (Raised_Exception msg out_path, s)
      | (buf, Interrupted_stream) \<Rightarrow> (Raised_KeyboardInterrupt out_path, s)
      | (buf, Finished) \<Rightarrow>
          (case os_mkdir (st_fs s) (path_parent out_path) of
             None \<Rightarrow> (Raised_Exception ''mkdir'' out_path, s)
           | Some fs1 \<Rightarrow>
               (case os_write fs1 out_path buf of
                  None \<Rightarrow> (Raised_Exception ''open'' out_path, s\<lparr>st_fs := fs1\<rparr>)
                | Some fs2 \<Rightarrow>
                    (let (p, s') = correct_and_count d out_path
                           (s\<lparr>st_fs := fs2, writes := writes s @ [out_path]\<rparr>)
                     in (Completed p, s')))))"

definition lock_acquired :: "downloader \<Rightarrow> environment \<Rightarrow> path \<Rightarrow> bool" where
  "lock_acquired d env out_path =
     (lock_primitive d \<and> (lock_policy d = BLOCK \<or> out_path \<notin> set (lock_held env)))"

definition streamed_download ::
  "downloader \<Rightarrow> environment \<Rightarrow> path \<Rightarrow> stream_event list \<Rightarrow> dl_state
     \<Rightarrow> attempt_result \<times> dl_state" where
  "streamed_download d env out_path events s =
     (case os_mkdir (st_fs s) (path_parent out_path) of
        None \<Rightarrow> (Raised_Exception ''mkdir'' out_path, s)
      | Some fs1 \<Rightarrow>
          (case os_write fs1 out_path [] of
             None \<Rightarrow> (Raised_Exception ''open'' out_path, s\<lparr>st_fs := fs1\<rparr>)
           | Some fs2 \<Rightarrow>
               (let s2 = s\<lparr>st_fs := fs2, writes := writes s @ [out_path]\<rparr> in
                if lock_policy d = FAIL \<and> \<not> lock_acquired d env out_path
                then (let (p, s') = correct_and_count d out_path s2
                      in (Raised_Exception ''Failed to acquire lock for file and policy is fail'' p, s'))
                else (let (buf, e) = read_stream events;
                          fs3 = (case os_write fs2 out_path buf of None \<Rightarrow> fs2 | Some f \<Rightarrow> f);
                          (p, s') = correct_and_count d out_path (s2\<lparr>st_fs := fs3\<rparr>)
                      in case e of
                           Finished \<Rightarrow> (Completed p, s')
                         | Failed msg \<Rightarrow> (Raised_Exception msg p, s')
                         | Interrupted_stream \<Rightarrow> (Raised_KeyboardInterrupt p, s')))))"

definition download_attempt ::
  "downloader \<Rightarrow> environment \<Rightarrow> string \<Rightarrow> path \<Rightarrow> dl_state \<Rightarrow> attempt_result \<times> dl_state" where
  "download_attempt d env download_url out_path s =
     (case request_with_retries env (dl_max_retries d) download_url s of
        (RequestFails msg, s1) \<Rightarrow> (Raised_Exception msg out_path, s1)
      | (RequestInterrupted, s1) \<Rightarrow> (Raised_KeyboardInterrupt out_path, s1)
      | (Response cl events, s1) \<Rightarrow>
          (case cl of
             Some n \<Rightarrow>
               if n \<le> memory_threshold_bytes d then buffered_download d out_path events s1
               else streamed_download d env out_path events s1
           | None \<Rightarrow> streamed_download d env out_path events s1))"

text \<open>
  What both handlers do first: \<^verbatim>\<open>if out_path.exists(): out_path.unlink()\<close>, an \<^verbatim>\<open>OSError\<close>
  being ignored.
\<close>

definition remove_partial :: "filesystem \<Rightarrow> path \<Rightarrow> filesystem" where
  "remove_partial fs out_path =
     (if path_exists fs out_path
      then (case os_unlink fs out_path of None \<Rightarrow> fs | Some fs' \<Rightarrow> fs')
      else fs)"

text \<open>
  One pass through the body of the loop of \<^verbatim>\<open>download_files\<close>.  The counters are
  (successful downloads, images, videos).  \<open>Next\<close> goes on with the following item, the other
  two leave the function with an exception: the re-raised \<^verbatim>\<open>KeyboardInterrupt\<close>, or the
  \<^verbatim>\<open>OSError\<close> of the \<^verbatim>\<open>mkdir\<close> in \<^verbatim>\<open>get_media_folder\<close>, which is outside the \<^verbatim>\<open>try\<close>.
\<close>

type_synonym counters = "nat \<times> nat \<times> nat"

datatype control = Next counters | KeyboardInterrupt | FolderError

definition download_item ::
  "downloader \<Rightarrow> environment \<Rightarrow> string \<Rightarrow> ApiItem \<Rightarrow> counters \<Rightarrow> dl_state \<Rightarrow> control \<times> dl_state"
  where
  "download_item d env creator item cnt s =
     (case api_url item of
        None \<Rightarrow> (Next cnt, s)
      | Some url \<Rightarrow>
          if url = [] then (Next cnt, s)
          else (let download_url = update_video_url (url_path d) url (video_extensions d) in
                case os_mkdir (st_fs s) (media_folder d creator download_url) of
                  None \<Rightarrow> (FolderError, s)
                | Some fs1 \<Rightarrow>
                    (let s1 = s\<lparr>st_fs := fs1\<rparr>;
                         out_path = output_path d creator download_url
                     in if path_exists fs1 out_path then (Next cnt, s1)
                        else (case download_attempt d env download_url out_path s1 of
                                (Completed p, s2) \<Rightarrow>
                                  (let media_type = media_type_from_extension
                                         (lower (path_suffix p)) (image_extensions d)
                                         (video_extensions d);
                                       (total, images, videos) = cnt
                                   in (Next (total + 1,
                                         (if media_type = ''Images'' then images + 1 else images),
                                         (if media_type = ''Videos'' then videos + 1 else videos)),
                                       s2))
                              | (Raised_KeyboardInterrupt p, s2) \<Rightarrow>
                                  (KeyboardInterrupt, s2\<lparr>st_fs := remove_partial (st_fs s2) p\<rparr>)
                              | (Raised_Exception msg p, s2) \<Rightarrow>
                                  (let s3 = s2\<lparr>st_fs := remove_partial (st_fs s2) p\<rparr> in
                                   (Next cnt,
                                    (case st_retry_queue s3 of
                                       Some q \<Rightarrow>
                                         if enable_retry_queue d
                                         then s3\<lparr>st_retry_queue :=
                                                Some (rq_add item creator download_url p msg q)\<rparr>
                                         else s3
                                     | None \<Rightarrow> s3)))))))"

text \<open>
  \<^verbatim>\<open>download_files\<close>: the loop over the items.  The result is the returned triple, or the
  exception that left the function.
\<close>

datatype outcome = Returns counters | Raises_KeyboardInterrupt | Raises_FolderError

fun download_loop ::
  "downloader \<Rightarrow> environment \<Rightarrow> string \<Rightarrow> ApiItem list \<Rightarrow> counters \<Rightarrow> dl_state
     \<Rightarrow> outcome \<times> dl_state" where
  "download_loop d env creator [] cnt s = (Returns cnt, s)"
| "download_loop d env creator (item # rest) cnt s =
     (case download_item d env creator item cnt s of
        (Next cnt', s') \<Rightarrow> download_loop d env creator rest cnt' s'
      | (KeyboardInterrupt, s') \<Rightarrow> (Raises_KeyboardInterrupt, s')
      | (FolderError, s') \<Rightarrow> (Raises_FolderError, s'))"

definition download_files ::
  "downloader \<Rightarrow> environment \<Rightarrow> ApiItem list \<Rightarrow> string \<Rightarrow> dl_state \<Rightarrow> outcome \<times> dl_state" where
  "download_files d env items creator s = download_loop d env creator items (0, 0, 0) s"

section \<open>utilities/video\_validator.py: scan\_creator\_videos\<close>

text \<open>
  \<^verbatim>\<open>Path.iterdir\<close> restricted to regular files: the files whose parent is the folder, in the
  order of the file system's list.
\<close>

definition list_files :: "filesystem \<Rightarrow> path \<Rightarrow> path list" where
  "list_files fs folder = filter (\<lambda>p. path_parent p = folder) (map fst (files fs))"

text \<open>
  The state of a scan: the file system, the tracker, the results dictionary (file name to
  validation triple) and the two counters.  \<open>probe\<close> is \<^verbatim>\<open>get_video_info\<close>, the run of the
  external probe on a path.
\<close>

record scan_state =
  sc_fs :: filesystem
  sc_tracker :: tracker
  results :: "(string \<times> bool \<times> int \<times> pyfloat) list"
  invalid_count :: nat
  incorrect_count :: nat

definition scan_file ::
  "(path \<Rightarrow> video_info option) \<Rightarrow> string list \<Rightarrow> string list option \<Rightarrow> bool \<Rightarrow> string
     \<Rightarrow> path \<Rightarrow> scan_state \<Rightarrow> scan_state" where
  "scan_file probe video_exts image_exts apply_corrections media_type video_file st =
     (let triple = (if media_type = ''Images'' then validate_image (sc_fs st) video_file
                    else validate_video (probe video_file));
          st1 = st\<lparr>results := AList.update (path_name video_file) triple (results st)\<rparr>;
          st2 = (if \<not> fst triple then st1\<lparr>invalid_count := invalid_count st1 + 1\<rparr> else st1);
          st3 = (if get_correction (sc_tracker st2) video_file \<noteq> None
                 then st2\<lparr>incorrect_count := incorrect_count st2 + 1\<rparr> else st2)
      in case image_exts of
           None \<Rightarrow> st3
         | Some im \<Rightarrow>
             if apply_corrections \<and> im \<noteq> []
             then (let (corrected_path, fs') =
                         validate_and_correct_file (sc_fs st3) video_file im video_exts None True;
                       st4 = st3\<lparr>sc_fs := fs'\<rparr>
                   in if corrected_path \<noteq> video_file
                      then st4\<lparr>sc_tracker := tracker_record (sc_tracker st4) video_file
                                 (lower (path_suffix video_file))
                                 (lower (path_suffix corrected_path)),
                               results := AList.update (path_name corrected_path) triple
                                 (AList.delete (path_name video_file) (results st4))\<rparr>
                      else st4)
             else st3)"

definition scan_creator_videos ::
  "(path \<Rightarrow> video_info option) \<Rightarrow> filesystem \<Rightarrow> tracker \<Rightarrow> path \<Rightarrow> string list
     \<Rightarrow> string list option \<Rightarrow> bool \<Rightarrow> string option \<Rightarrow> string \<Rightarrow> scan_state" where
  "scan_creator_videos probe fs t creator_path video_exts image_exts apply_corrections
       scan_folder media_type =
     (let folder_name = (case scan_folder of
                           None \<Rightarrow> ''Videos''
                         | Some n \<Rightarrow> if n = [] then ''Videos'' else n);
          target_folder = path_join creator_path folder_name;
          st0 = \<lparr>sc_fs = fs, sc_tracker = t, results = [], invalid_count = 0,
                 incorrect_count = 0\<rparr>
      in if \<not> path_exists fs target_folder \<or> \<not> is_dir fs target_folder then st0
         else (let video_files =
                     (if lower folder_name = ''videos''
                      then filter (\<lambda>f. lower (path_suffix f) \<in> set video_exts)
                             (list_files fs target_folder)
                      else list_files fs target_folder)
               in fold (scan_file probe video_exts image_exts apply_corrections media_type)
                    video_files st0))"

definition scan_creator_images ::
  "(path \<Rightarrow> video_info option) \<Rightarrow> filesystem \<Rightarrow> tracker \<Rightarrow> path \<Rightarrow> string list
     \<Rightarrow> string list option \<Rightarrow> bool \<Rightarrow> scan_state" where
  "scan_creator_images probe fs t creator_path image_exts video_exts apply_corrections =
     scan_creator_videos probe fs t creator_path
       (case video_exts of None \<Rightarrow> [] | Some v \<Rightarrow> v) (Some image_exts) apply_corrections
       (Some ''Images'') ''Images''"

section \<open>core/repair\_manager.py\<close>











section \<open>Concrete inputs\<close>

text \<open>
  A downloader with the retry queue enabled, an item whose URL ends in \<^verbatim>\<open>.jpg\<close>, and
  environments that answer every request with the eight bytes of the PNG signature, or fail
  every request.
\<close>

definition demo_downloader :: downloader where
  "demo_downloader =
     \<lparr>output_folder = ''out'', video_extensions = [''.mp4'', ''.webm''],
      image_extensions = [''.jpg'', ''.png''], dl_download_timeout = 60, dl_max_retries = 3,
      retry_backoff_sec = 2, memory_threshold_bytes = 2147483648, lock_policy = BEST_EFFORT,
      enable_retry_queue = True, lock_primitive = True, url_path = simple_url_path\<rparr>"

definition png_magic :: bytes where
  "png_magic = CHR 0x89 # ''PNG'' @ [CHR 0x0D, CHR 0x0A, CHR 0x1A, CHR 0x0A]"

definition demo_item :: ApiItem where
  "demo_item = \<lparr>api_url = Some ''https://image.civitai.com/x/abc.jpg''\<rparr>"

definition png_env :: environment where
  "png_env = \<lparr>net = (\<lambda>n u. Response (Some 8) [Chunk png_magic]), lock_held = []\<rparr>"


definition demo_state :: "downloader \<Rightarrow> dl_state" where
  "demo_state d = MediaDownloader_init d (plain_fs []) []"










section \<open>Video validity (claim C2)\<close>

lemma vp9_not_image_codec: "''vp9'' \<notin> set IMAGE_CODECS"
  by (simp add: IMAGE_CODECS_def)

lemma h264_not_image_codec: "''h264'' \<notin> set IMAGE_CODECS"
  by (simp add: IMAGE_CODECS_def)

text \<open>
  Claim C2.  For every probe result (frames, duration, codec), \<^verbatim>\<open>validate_video\<close> decides in
  this order: an image codec (webp, png, jpeg, mjpeg, gif, bmp) is invalid; otherwise codec vp9
  is valid whatever the duration and the frame count; otherwise a duration at most 0 is invalid;
  otherwise a frame count at most 1 is invalid; otherwise the file is valid.  The frame count
  and the duration are returned as probed.  In particular, for a codec that is neither an image
  codec nor vp9, duration 5.0 with 1 frame is invalid and duration 5.0 with 2 frames is valid;
  duration 0 with codec vp9 is valid and duration 0 with codec h264 is invalid.
\<close>

theorem validate_video_decision_order:
  "validate_video (Some (frames, duration, codec)) =
     ((if codec \<in> {''webp'', ''png'', ''jpeg'', ''mjpeg'', ''gif'', ''bmp''} then False
       else if codec = ''vp9'' then True
       else if float_le_zero duration then False
       else if frames \<le> 1 then False
       else True), frames, duration)
   \<and> (codec \<notin> set IMAGE_CODECS \<and> codec \<noteq> ''vp9'' \<longrightarrow>
         fst (validate_video (Some (1, Finite 5, codec))) = False
         \<and> fst (validate_video (Some (2, Finite 5, codec))) = True)
   \<and> fst (validate_video (Some (frames, Finite 0, ''vp9''))) = True
   \<and> fst (validate_video (Some (frames, Finite 0, ''h264''))) = False"
  by (simp add: IMAGE_CODECS_def)

theorem validate_video_decision_order_witness:
  "''h264'' \<notin> set IMAGE_CODECS \<and> ''h264'' \<noteq> ''vp9''
   \<and> validate_video (Some (1, Finite 5, ''h264'')) = (False, 1, Finite 5)
   \<and> validate_video (Some (2, Finite 5, ''h264'')) = (True, 2, Finite 5)
   \<and> validate_video (Some (0, Finite 0, ''vp9'')) = (True, 0, Finite 0)
   \<and> validate_video (Some (250, Finite 0, ''h264'')) = (False, 250, Finite 0)
   \<and> validate_video (Some (250, Finite 5, ''png'')) = (False, 250, Finite 5)"
  using validate_video_decision_order [of 1 "Finite 5" "''h264''"]
    validate_video_decision_order [of 2 "Finite 5" "''h264''"]
    validate_video_decision_order [of 0 "Finite 0" "''vp9''"]
    validate_video_decision_order [of 250 "Finite 0" "''h264''"]
    validate_video_decision_order [of 250 "Finite 5" "''png''"]
    h264_not_image_codec
  by simp

section \<open>Retry queue: an item that never downloads (claim C1)\<close>

lemma worker_iteration_stop_event:
  "rq_stop_event (worker_iteration dl q) = rq_stop_event q"
  by (simp add: worker_iteration_def process_item_def process_failure_def Let_def
      split: list.splits dl_outcome.splits bool.splits)

lemma worker_loop_stop_event:
  "rq_stop_event (worker_loop n dl q) = rq_stop_event q"
  by (induction n arbitrary: q) (simp_all add: worker_iteration_stop_event)

lemma worker_loop_add:
  "worker_loop (n + k) dl q = worker_loop k dl (worker_loop n dl q)"
proof (induction n arbitrary: q)
  case 0
  then show ?case by simp
next
  case (Suc n)
  show ?case
  proof (cases "rq_stop_event q")
    case True
    then show ?thesis by (cases k) simp_all
  next
    case False
    then show ?thesis using Suc by simp
  qed
qed

lemma pending_step:
  assumes "always_fails dl" and "pending_state cfg q c a"
  shows "if c + 1 \<ge> max_retries cfg
         then failed_state cfg (worker_iteration dl q) (c + 1) (Suc a)
         else pending_state cfg (worker_iteration dl q) (c + 1) (Suc a)"
proof -
  from assms(2) obtain fd where q: "rq_queue q = [fd]"
    by (cases "rq_queue q") (auto simp: pending_state_def)
  have nt: "dl n i cr p \<noteq> Returned True" for n i cr p
    using assms(1) by (simp add: always_fails_def)
  show ?thesis
    using assms(2) q nt[of "length (attempts q)" "fd_item fd" "fd_creator fd" "fd_out_path fd"]
    by (auto simp: pending_state_def failed_state_def worker_iteration_def process_item_def
        process_failure_def Let_def split: dl_outcome.splits bool.splits)
qed

lemma failed_step: "failed_state cfg q c a \<Longrightarrow> worker_iteration dl q = q"
  by (simp add: failed_state_def worker_iteration_def)

lemma failed_loop: "failed_state cfg q c a \<Longrightarrow> worker_loop n dl q = q"
  by (induction n) (simp_all add: failed_step)

lemma pending_loop:
  assumes "always_fails dl"
  shows "pending_state cfg q c a \<Longrightarrow> n = 0 \<or> c + int n < max_retries cfg \<Longrightarrow>
         pending_state cfg (worker_loop n dl q) (c + int n) (a + n)"
proof (induction n arbitrary: q c a)
  case 0
  then show ?case by simp
next
  case (Suc n)
  have ns: "\<not> rq_stop_event q" using Suc.prems(1) by (simp add: pending_state_def)
  have lt: "c + 1 < max_retries cfg" using Suc.prems(2) by simp
  then have "pending_state cfg (worker_iteration dl q) (c + 1) (Suc a)"
    using pending_step[OF assms Suc.prems(1)] by simp
  moreover have "n = 0 \<or> (c + 1) + int n < max_retries cfg" using Suc.prems(2) by simp
  ultimately have "pending_state cfg (worker_loop n dl (worker_iteration dl q)) (c + 1 + int n) (Suc a + n)"
    by (rule Suc.IH)
  moreover have "c + 1 + int n = c + int (Suc n)" and "Suc a + n = a + Suc n" by simp_all
  ultimately show ?case using ns by simp
qed

lemma added_pending:
  "pending_state cfg (rq_add item creator url out_path error (RetryQueue_init cfg)) 1 0"
  by (simp add: pending_state_def rq_add_def RetryQueue_init_def)


text \<open>
  Claim C1, as the code has it.  An item enters the queue with \<^verbatim>\<open>retry_count = 1\<close>, every
  failed attempt adds one, and the item is given up as soon as the count reaches
  \<^verbatim>\<open>max_retries\<close>.  With \<^verbatim>\<open>max_retries = N\<close> and a download function that always fails
  (returns \<^verbatim>\<open>False\<close> or raises), the queue therefore makes exactly \<open>max 1 (N - 1)\<close> download
  attempts: one per iteration of the worker until then (the item is pending, nothing has
  failed yet), and from then on, for every later iteration, \<^verbatim>\<open>get_stats()\<close> reports
  \<^verbatim>\<open>pending == 0\<close>, \<^verbatim>\<open>failed == 1\<close>, the number of attempts stays \<open>max 1 (N - 1)\<close> (the item
  is never attempted again) and the item sits in \<^verbatim>\<open>permanently_failed\<close> with
  \<^verbatim>\<open>retry_count = max 2 N\<close>.
\<close>

theorem retry_queue_exhaustion:
  assumes "always_fails dl"
  shows "(k < nat (max 1 (max_retries cfg - 1)) \<longrightarrow>
            get_stats (worker_loop k dl (rq_add item creator url out_path error (RetryQueue_init cfg)))
              = \<lparr>pending = 1, successful = 0, failed = 0\<rparr>
            \<and> length (attempts (worker_loop k dl
                 (rq_add item creator url out_path error (RetryQueue_init cfg)))) = k)
       \<and> (k \<ge> nat (max 1 (max_retries cfg - 1)) \<longrightarrow>
            get_stats (worker_loop k dl (rq_add item creator url out_path error (RetryQueue_init cfg)))
              = \<lparr>pending = 0, successful = 0, failed = 1\<rparr>
            \<and> length (attempts (worker_loop k dl
                 (rq_add item creator url out_path error (RetryQueue_init cfg))))
                = nat (max 1 (max_retries cfg - 1))
            \<and> map retry_count (rq_permanently_failed (worker_loop k dl
                 (rq_add item creator url out_path error (RetryQueue_init cfg))))
                = [max 2 (max_retries cfg)])"
proof -
  define q0 where "q0 = rq_add item creator url out_path error (RetryQueue_init cfg)"
  define m where "m = nat (max 1 (max_retries cfg - 1))"
  have m1: "1 \<le> m" unfolding m_def by linarith
  have p0: "pending_state cfg q0 1 0" unfolding q0_def by (rule added_pending)
  have below: "pending_state cfg (worker_loop j dl q0) (1 + int j) j" if "j < m" for j
  proof -
    have "j = 0 \<or> 1 + int j < max_retries cfg" using that unfolding m_def by linarith
    from pending_loop[OF assms p0 this] show ?thesis by simp
  qed
  have last: "pending_state cfg (worker_loop (m - 1) dl q0) (int m) (m - 1)"
    using below[of "m - 1"] m1 by (simp add: of_nat_diff)
  have ns: "\<not> rq_stop_event (worker_loop (m - 1) dl q0)"
    using last by (simp add: pending_state_def)
  have ge: "max_retries cfg \<le> int m + 1" unfolding m_def by linarith
  have "failed_state cfg (worker_iteration dl (worker_loop (m - 1) dl q0)) (int m + 1) (Suc (m - 1))"
    using pending_step[OF assms last] ge by simp
  moreover have "worker_loop m dl q0 = worker_iteration dl (worker_loop (m - 1) dl q0)"
    using worker_loop_add[of "m - 1" 1 dl q0] m1 ns by simp
  ultimately have fm: "failed_state cfg (worker_loop m dl q0) (int m + 1) m"
    using m1 by simp
  have above: "worker_loop j dl q0 = worker_loop m dl q0" if "m \<le> j" for j
    using worker_loop_add[of m "j - m" dl q0] failed_loop[OF fm] that by simp
  have mval: "int m + 1 = max 2 (max_retries cfg)" unfolding m_def by linarith
  have A: "k < m \<longrightarrow> get_stats (worker_loop k dl q0) = \<lparr>pending = 1, successful = 0, failed = 0\<rparr>
        \<and> length (attempts (worker_loop k dl q0)) = k"
    using below[of k] by (auto simp: pending_state_def get_stats_def)
  have B: "m \<le> k \<longrightarrow> get_stats (worker_loop k dl q0) = \<lparr>pending = 0, successful = 0, failed = 1\<rparr>
        \<and> length (attempts (worker_loop k dl q0)) = m
        \<and> map retry_count (rq_permanently_failed (worker_loop k dl q0)) = [max 2 (max_retries cfg)]"
  proof
    assume "m \<le> k"
    then have e: "worker_loop k dl q0 = worker_loop m dl q0" by (rule above)
    obtain fd where pf: "rq_permanently_failed (worker_loop m dl q0) = [fd]"
      using fm by (cases "rq_permanently_failed (worker_loop m dl q0)") (auto simp: failed_state_def)
    show "get_stats (worker_loop k dl q0) = \<lparr>pending = 0, successful = 0, failed = 1\<rparr>
        \<and> length (attempts (worker_loop k dl q0)) = m
        \<and> map retry_count (rq_permanently_failed (worker_loop k dl q0)) = [max 2 (max_retries cfg)]"
      using fm pf mval unfolding e by (simp add: failed_state_def get_stats_def)
  qed
  show ?thesis using A B unfolding q0_def m_def by blast
qed

theorem retry_queue_exhaustion_witness:
  "always_fails never_ok
   \<and> get_stats (worker_loop 1 never_ok (rq_add \<lparr>api_url = Some ''u''\<rparr> ''alice'' ''u'' ''a.mp4'' ''timeout''
        (RetryQueue_init \<lparr>max_retries = 3, retry_delay_sec = Finite 5, download_timeout = 60\<rparr>)))
       = \<lparr>pending = 1, successful = 0, failed = 0\<rparr>
   \<and> get_stats (worker_loop 7 never_ok (rq_add \<lparr>api_url = Some ''u''\<rparr> ''alice'' ''u'' ''a.mp4'' ''timeout''
        (RetryQueue_init \<lparr>max_retries = 3, retry_delay_sec = Finite 5, download_timeout = 60\<rparr>)))
       = \<lparr>pending = 0, successful = 0, failed = 1\<rparr>
   \<and> length (attempts (worker_loop 7 never_ok (rq_add \<lparr>api_url = Some ''u''\<rparr> ''alice'' ''u'' ''a.mp4'' ''timeout''
        (RetryQueue_init \<lparr>max_retries = 3, retry_delay_sec = Finite 5, download_timeout = 60\<rparr>)))) = 2"
proof -
  have a: "always_fails never_ok" by (simp add: always_fails_def never_ok_def)
  show ?thesis
    using a
      retry_queue_exhaustion [OF a, of 1 "\<lparr>max_retries = 3, retry_delay_sec = Finite 5, download_timeout = 60\<rparr>"
        "\<lparr>api_url = Some ''u''\<rparr>" "''alice''" "''u''" "''a.mp4''" "''timeout''"]
      retry_queue_exhaustion [OF a, of 7 "\<lparr>max_retries = 3, retry_delay_sec = Finite 5, download_timeout = 60\<rparr>"
        "\<lparr>api_url = Some ''u''\<rparr>" "''alice''" "''u''" "''a.mp4''" "''timeout''"]
    by simp
qed

text \<open>
  The claim as stated asks for exactly \<open>N\<close> attempts by the queue.  With \<^verbatim>\<open>max_retries = 3\<close>
  the item is in \<^verbatim>\<open>permanently_failed\<close> after two attempts, and a third attempt never
  happens.
\<close>

theorem retry_queue_attempts_counterexample:
  "get_stats (worker_loop 2 never_ok (rq_add \<lparr>api_url = Some ''u''\<rparr> ''alice'' ''u'' ''a.mp4'' ''timeout''
        (RetryQueue_init \<lparr>max_retries = 3, retry_delay_sec = Finite 5, download_timeout = 60\<rparr>)))
       = \<lparr>pending = 0, successful = 0, failed = 1\<rparr>
   \<and> length (attempts (worker_loop 2 never_ok (rq_add \<lparr>api_url = Some ''u''\<rparr> ''alice'' ''u'' ''a.mp4'' ''timeout''
        (RetryQueue_init \<lparr>max_retries = 3, retry_delay_sec = Finite 5, download_timeout = 60\<rparr>)))) \<noteq> 3
   \<and> length (attempts (worker_loop 3 never_ok (rq_add \<lparr>api_url = Some ''u''\<rparr> ''alice'' ''u'' ''a.mp4'' ''timeout''
        (RetryQueue_init \<lparr>max_retries = 3, retry_delay_sec = Finite 5, download_timeout = 60\<rparr>)))) = 2"
  by (simp add: numeral_2_eq_2 numeral_3_eq_3 never_ok_def rq_add_def RetryQueue_init_def worker_iteration_def
      process_item_def process_failure_def get_stats_def Let_def)

section \<open>Format sniffer: the signature tables (claim C3)\<close>

lemma signatures_flat:
  "list_all (\<lambda>(sig, fmt). sig \<noteq> [] \<and> length sig \<le> 12 \<and> riff_check (sig @ t) = None
       \<and> signature_scan SIGNATURES (sig @ t) = Some fmt) SIGNATURES"
  by (simp add: SIGNATURES_def riff_check_def startswith_def)

lemma signatures_short_ftyp:
  "list_all (\<lambda>(sig, fmt). length sig \<le> 8 \<and> (4 < length sig \<longrightarrow> take 4 (drop 4 (sig @ t)) \<noteq> ''ftyp'')
       \<or> ftyp_check (sig @ t) = Some fmt) SIGNATURES"
  by (simp add: SIGNATURES_def ftyp_check_def startswith_def)

lemma signatures_riff:
  "list_all (\<lambda>(sub, fmt). length sub = 4 \<and> map_of RIFF_SIGNATURES sub = Some fmt) RIFF_SIGNATURES"
  by (simp add: RIFF_SIGNATURES_def)

lemma detect_format_readable:
  assumes "map_of (files fs) p = Some content" and "p \<notin> set (read_denied fs)"
  shows "detect_format fs p = detect_header (take 512 content)"
  using assms by (simp add: detect_format_def path_exists_def is_file_def read_bytes_def)

lemma take_header_append:
  "length sig \<le> 12 \<Longrightarrow> take 512 (sig @ t) = sig @ take (512 - length sig) t"
  by simp

lemma sig_header:
  assumes "(sig, fmt) \<in> set SIGNATURES"
  shows "detect_header (sig @ t) = (case ftyp_check (sig @ t) of Some f \<Rightarrow> Some f | None \<Rightarrow> Some fmt)"
proof -
  have "sig \<noteq> [] \<and> length sig \<le> 12 \<and> riff_check (sig @ t) = None
       \<and> signature_scan SIGNATURES (sig @ t) = Some fmt"
    using signatures_flat[of t] assms by (auto simp: list_all_iff)
  then show ?thesis by (simp add: detect_header_def split: option.splits)
qed

lemma sig_ftyp_exact:
  assumes "(sig, fmt) \<in> set SIGNATURES"
  shows "ftyp_check sig = None \<or> ftyp_check sig = Some fmt"
proof -
  have "length sig \<le> 8 \<and> (4 < length sig \<longrightarrow> take 4 (drop 4 (sig @ [])) \<noteq> ''ftyp'')
       \<or> ftyp_check (sig @ []) = Some fmt"
    using signatures_short_ftyp[of "[]"] assms by (auto simp: list_all_iff)
  then show ?thesis by (auto simp: ftyp_check_def)
qed

lemma sig_ftyp_long:
  assumes "(sig, fmt) \<in> set SIGNATURES" and "4 < length sig"
  shows "ftyp_check (sig @ t) = None \<or> ftyp_check (sig @ t) = Some fmt"
proof -
  have "length sig \<le> 8 \<and> (4 < length sig \<longrightarrow> take 4 (drop 4 (sig @ t)) \<noteq> ''ftyp'')
       \<or> ftyp_check (sig @ t) = Some fmt"
    using signatures_short_ftyp[of t] assms by (auto simp: list_all_iff)
  then show ?thesis using assms(2) by (auto simp: ftyp_check_def)
qed

lemma riff_header:
  assumes "(sub, fmt) \<in> set RIFF_SIGNATURES" and "length size_field = 4" and "t \<noteq> []"
  shows "detect_header (take 512 (''RIFF'' @ size_field @ sub @ t)) = Some fmt"
proof -
  have s: "length sub = 4 \<and> map_of RIFF_SIGNATURES sub = Some fmt"
    using signatures_riff assms(1) by (auto simp: list_all_iff)
  obtain a b c d where sf: "size_field = [a, b, c, d]"
    using assms(2) by (auto simp: length_Suc_conv numeral_eq_Suc)
  obtain e f g h where sb: "sub = [e, f, g, h]"
    using s by (auto simp: length_Suc_conv numeral_eq_Suc)
  obtain x t' where t: "t = x # t'" using assms(3) by (cases t) auto
  have "riff_check (take 512 (''RIFF'' @ size_field @ sub @ t)) = Some fmt"
    using s by (simp add: riff_check_def startswith_def sf sb t)
  then show ?thesis by (simp add: detect_header_def sf)
qed


text \<open>
  Claim C3, as the code has it.  For a readable file: (1) for every entry of the flat table
  \<^verbatim>\<open>SIGNATURES\<close>, a file whose content is exactly the magic prefix is detected as the
  associated (media kind, format name, canonical extension); (2) with trailing bytes after the
  prefix the result is still the associated triple, unless the ftyp check, which comes first,
  recognises the first 512 bytes (bytes 4 to 8 are \<^verbatim>\<open>ftyp\<close> and the brand that follows is
  known), and then the ftyp check decides; (3) for a signature longer than four bytes no
  trailing bytes change the result; (4) for every entry of \<^verbatim>\<open>RIFF_SIGNATURES\<close>, a file made
  of \<^verbatim>\<open>RIFF\<close>, four size bytes, the subtype and at least one more byte is detected as the
  associated triple, whatever the trailing bytes are; (5) the RIFF check, then the ftyp check,
  are applied before the flat table.
\<close>

theorem detect_format_signature_tables:
  assumes "map_of (files fs) p = Some content" and "p \<notin> set (read_denied fs)"
  shows "((sig, fmt) \<in> set SIGNATURES \<and> content = sig \<longrightarrow> detect_format fs p = Some fmt)
       \<and> ((sig, fmt) \<in> set SIGNATURES \<and> content = sig @ trailing \<longrightarrow>
            detect_format fs p =
              (case ftyp_check (take 512 content) of Some f \<Rightarrow> Some f | None \<Rightarrow> Some fmt))
       \<and> ((sig, fmt) \<in> set SIGNATURES \<and> content = sig @ trailing \<and> 4 < length sig \<longrightarrow>
            detect_format fs p = Some fmt)
       \<and> ((sub, rfmt) \<in> set RIFF_SIGNATURES \<and> length size_field = 4 \<and> trailing \<noteq> []
            \<and> content = ''RIFF'' @ size_field @ sub @ trailing \<longrightarrow>
            detect_format fs p = Some rfmt)
       \<and> detect_format fs p =
            (if content = [] then None
             else case riff_check (take 512 content) of
                    Some f \<Rightarrow> Some f
                  | None \<Rightarrow>
                     (case ftyp_check (take 512 content) of
                        Some f \<Rightarrow> Some f
                      | None \<Rightarrow> signature_scan SIGNATURES (take 512 content)))"
proof -
  have df: "detect_format fs p = detect_header (take 512 content)"
    using assms by (rule detect_format_readable)
  have len: "length s \<le> 12" if "(s, f) \<in> set SIGNATURES" for s f
    using signatures_flat[of "[]"] that by (auto simp: list_all_iff)
  have A: "detect_format fs p = Some fmt" if "(sig, fmt) \<in> set SIGNATURES" "content = sig"
  proof -
    have "take 512 content = sig @ []" using len[OF that(1)] that(2) by simp
    then have "detect_format fs p
        = (case ftyp_check sig of Some f \<Rightarrow> Some f | None \<Rightarrow> Some fmt)"
      using sig_header[OF that(1), of "[]"] df by simp
    then show ?thesis using sig_ftyp_exact[OF that(1)] by auto
  qed
  have B: "detect_format fs p
        = (case ftyp_check (take 512 content) of Some f \<Rightarrow> Some f | None \<Rightarrow> Some fmt)"
    if "(sig, fmt) \<in> set SIGNATURES" "content = sig @ trailing"
  proof -
    have "take 512 content = sig @ take (512 - length sig) trailing"
      using len[OF that(1)] that(2) by simp
    then show ?thesis using sig_header[OF that(1)] df by simp
  qed
  have C: "detect_format fs p = Some fmt"
    if "(sig, fmt) \<in> set SIGNATURES" "content = sig @ trailing" "4 < length sig"
  proof -
    have t: "take 512 content = sig @ take (512 - length sig) trailing"
      using len[OF that(1)] that(2) by simp
    show ?thesis
      using B[OF that(1,2)] sig_ftyp_long[OF that(1,3), of "take (512 - length sig) trailing"]
      unfolding t by auto
  qed
  have D: "detect_format fs p = Some rfmt"
    if "(sub, rfmt) \<in> set RIFF_SIGNATURES" "length size_field = 4" "trailing \<noteq> []"
      "content = ''RIFF'' @ size_field @ sub @ trailing"
    using riff_header[OF that(1,2,3)] df that(4) by simp
  have E: "detect_format fs p =
            (if content = [] then None
             else case riff_check (take 512 content) of
                    Some f \<Rightarrow> Some f
                  | None \<Rightarrow>
                     (case ftyp_check (take 512 content) of
                        Some f \<Rightarrow> Some f
                      | None \<Rightarrow> signature_scan SIGNATURES (take 512 content)))"
    unfolding df by (simp add: detect_header_def)
  show ?thesis using A B C D E by blast
qed

theorem detect_format_signature_tables_witness:
  "detect_format (plain_fs [(''f'', ''GIF89a'')]) ''f'' = Some (''image'', ''GIF'', ''.gif'')
   \<and> detect_format (plain_fs [(''f'', ''GIF89a'' @ ''ftypisom'')]) ''f'' = Some (''image'', ''GIF'', ''.gif'')
   \<and> detect_format (plain_fs [(''f'', ''RIFF'' @ ''abcd'' @ ''WEBP'' @ ''VP8 '')]) ''f''
       = Some (''image'', ''WebP'', ''.webp'')"
proof -
  have g: "(''GIF89a'', (''image'', ''GIF'', ''.gif'')) \<in> set SIGNATURES"
    by (simp add: SIGNATURES_def)
  have r: "(''WEBP'', (''image'', ''WebP'', ''.webp'')) \<in> set RIFF_SIGNATURES"
    by (simp add: RIFF_SIGNATURES_def)
  have 1: "map_of (files (plain_fs [(''f'', c)])) ''f'' = Some c"
    and 2: "''f'' \<notin> set (read_denied (plain_fs [(''f'', c)]))" for c
    by (simp_all add: plain_fs_def)
  have a: "detect_format (plain_fs [(''f'', ''GIF89a'')]) ''f'' = Some (''image'', ''GIF'', ''.gif'')"
    using detect_format_signature_tables [OF 1 [of "''GIF89a''"] 2 [of "''GIF89a''"],
        where sig = "''GIF89a''" and fmt = "(''image'', ''GIF'', ''.gif'')"] g
    by simp
  have b: "detect_format (plain_fs [(''f'', ''GIF89a'' @ ''ftypisom'')]) ''f''
             = Some (''image'', ''GIF'', ''.gif'')"
    using detect_format_signature_tables [OF 1 [of "''GIF89a'' @ ''ftypisom''"]
        2 [of "''GIF89a'' @ ''ftypisom''"], where sig = "''GIF89a''"
        and fmt = "(''image'', ''GIF'', ''.gif'')" and trailing = "''ftypisom''"] g
    by (simp add: ftyp_check_def)
  have c: "detect_format (plain_fs [(''f'', ''RIFF'' @ ''abcd'' @ ''WEBP'' @ ''VP8 '')]) ''f''
             = Some (''image'', ''WebP'', ''.webp'')"
    using detect_format_signature_tables [OF 1 [of "''RIFF'' @ ''abcd'' @ ''WEBP'' @ ''VP8 ''"]
        2 [of "''RIFF'' @ ''abcd'' @ ''WEBP'' @ ''VP8 ''"], where sub = "''WEBP''"
        and rfmt = "(''image'', ''WebP'', ''.webp'')" and size_field = "''abcd''"
        and trailing = "''VP8 ''"] r
    by simp
  show ?thesis using a b c by simp
qed

text \<open>
  The claim as stated says that trailing bytes never change the result.  The two-byte BMP
  signature followed by two bytes and \<^verbatim>\<open>ftypisom\<close> is detected as MP4, because the ftyp
  check runs before the flat table.
\<close>

theorem detect_format_trailing_bytes_counterexample:
  "(''BM'', (''image'', ''BMP'', ''.bmp'')) \<in> set SIGNATURES
   \<and> detect_format (plain_fs [(''f'', ''BM'')]) ''f'' = Some (''image'', ''BMP'', ''.bmp'')
   \<and> detect_format (plain_fs [(''f'', ''BM'' @ [CHR 0x00, CHR 0x00] @ ''ftypisom'')]) ''f''
       = Some (''video'', ''MP4'', ''.mp4'')"
  by (simp add: SIGNATURES_def detect_format_def plain_fs_def path_exists_def is_file_def
      read_bytes_def detect_header_def riff_check_def ftyp_check_def startswith_def)

section \<open>validate\_image on a file that is not recognised (claim C8)\<close>

text \<open>
  Claim C8 at a failing input.  The docstring of \<^verbatim>\<open>validate_image\<close> promises a frame count
  that is always 1; for a file whose leading bytes match no signature, and for a path that
  does not exist, the code returns the frame count 0.
\<close>

theorem validate_image_unrecognised_file:
  "validate_image (plain_fs [(''a/Images/x.png'', ''hello'')]) ''a/Images/x.png'' = (False, 0, Finite 0)
   \<and> validate_image (plain_fs []) ''a/Images/x.png'' = (False, 0, Finite 0)
   \<and> snd (validate_image (plain_fs [(''a/Images/x.png'', ''hello'')]) ''a/Images/x.png'') \<noteq> (1, Finite 0)"
  by (simp add: validate_image_def SIGNATURES_def detect_format_def plain_fs_def path_exists_def
      is_file_def is_dir_def read_bytes_def detect_header_def riff_check_def ftyp_check_def startswith_def)

theorem validate_image_unrecognised_file_witness:
  "fst (snd (validate_image (plain_fs [(''a/Images/x.png'', ''hello'')]) ''a/Images/x.png'')) = 0
   \<and> fst (snd (validate_image (plain_fs []) ''a/Images/x.png'')) = 0"
  using validate_image_unrecognised_file by simp

section \<open>Extension correction: validate\_and\_correct\_file (claim C7)\<close>

lemma path_name_is_suffix: "\<exists>pre. p = pre @ path_name p"
proof -
  have "rev p = takeWhile (\<lambda>c. c \<noteq> CHR ''/'') (rev p) @ dropWhile (\<lambda>c. c \<noteq> CHR ''/'') (rev p)"
    by simp
  then have "p = rev (dropWhile (\<lambda>c. c \<noteq> CHR ''/'') (rev p)) @ path_name p"
    unfolding path_name_def by (metis rev_append rev_rev_ident)
  then show ?thesis by blast
qed

lemma name_suffix_is_suffix:
  assumes "CHR ''.'' \<in> set name"
  shows "\<exists>pre. name = pre @ CHR ''.'' # rev (takeWhile (\<lambda>c. c \<noteq> CHR ''.'') (rev name))"
proof -
  let ?P = "\<lambda>c. c \<noteq> CHR ''.''"
  have "dropWhile ?P (rev name) \<noteq> []" using assms by (simp add: dropWhile_eq_Nil_conv)
  then obtain x rest where d: "dropWhile ?P (rev name) = x # rest"
    by (cases "dropWhile ?P (rev name)") auto
  have "\<not> ?P x" using d hd_dropWhile[of ?P "rev name"] by (metis list.sel(1) list.distinct(1))
  then have x: "x = CHR ''.''" by simp
  have "rev name = takeWhile ?P (rev name) @ x # rest" using d by (metis takeWhile_dropWhile_id)
  then have "name = rev rest @ x # rev (takeWhile ?P (rev name))"
    by (metis rev_append rev_rev_ident rev.simps(2) append.assoc append_Cons append_Nil)
  then show ?thesis using x by blast
qed

lemma path_suffix_is_suffix: "\<exists>pre. p = pre @ path_suffix p"
proof (cases "path_suffix p = []")
  case True
  then show ?thesis by simp
next
  case False
  then have dot: "CHR ''.'' \<in> set (path_name p)"
    and eq: "path_suffix p = CHR ''.'' # rev (takeWhile (\<lambda>c. c \<noteq> CHR ''.'') (rev (path_name p)))"
    by (auto simp: path_suffix_def Let_def split: if_splits)
  obtain pre1 where 1: "p = pre1 @ path_name p" using path_name_is_suffix by blast
  obtain pre2 where 2: "path_name p = pre2 @ path_suffix p"
    using name_suffix_is_suffix[OF dot] eq by auto
  have "p = (pre1 @ pre2) @ path_suffix p" using 1 2 by (metis append.assoc)
  then show ?thesis by blast
qed

lemma with_suffix_same: "with_suffix p c = p \<Longrightarrow> c = path_suffix p"
proof -
  assume a: "with_suffix p c = p"
  obtain pre where p: "p = pre @ path_suffix p" using path_suffix_is_suffix by blast
  have "take (length p - length (path_suffix p)) p = pre"
    by (metis p append_eq_conv_conj length_append add_diff_cancel_right')
  then have "pre @ c = pre @ path_suffix p" using a p by (simp add: with_suffix_def)
  then show ?thesis by simp
qed

lemma signature_scan_range:
  "signature_scan tbl h = Some f \<Longrightarrow> f \<in> snd ` set tbl"
  by (induction tbl h rule: signature_scan.induct) (auto split: if_splits)

lemma detect_header_range:
  assumes "detect_header h = Some f"
  shows "f \<in> snd ` set SIGNATURES \<union> snd ` set RIFF_SIGNATURES"
proof -
  have m: "(''video'', ''MP4'', ''.mp4'') \<in> snd ` set SIGNATURES"
    "(''video'', ''MOV'', ''.mov'') \<in> snd ` set SIGNATURES"
    "(''image'', ''HEIC'', ''.heic'') \<in> snd ` set SIGNATURES"
    by (simp_all add: SIGNATURES_def)
  have r: "riff_check h = Some f \<Longrightarrow> f \<in> snd ` set RIFF_SIGNATURES"
    by (auto simp: riff_check_def split: if_splits dest!: map_of_SomeD intro: rev_image_eqI)
  have t: "ftyp_check h = Some f \<Longrightarrow> f \<in> snd ` set SIGNATURES"
    using m by (auto simp: ftyp_check_def Let_def split: if_splits)
  show ?thesis
    using assms r t signature_scan_range[of SIGNATURES h f]
    by (auto simp: detect_header_def split: if_splits option.splits)
qed

lemma detect_format_range:
  "detect_format fs p = Some f \<Longrightarrow> f \<in> snd ` set SIGNATURES \<union> snd ` set RIFF_SIGNATURES"
  by (auto simp: detect_format_def split: if_splits option.splits dest: detect_header_range)

lemma table_extensions_lower:
  "list_all (\<lambda>(k, f, e). lower e = e \<and> e \<noteq> []) (map snd SIGNATURES @ map snd RIFF_SIGNATURES)"
  by (simp add: SIGNATURES_def RIFF_SIGNATURES_def lower_def lower_char_def)

lemma variant_extensions_lower:
  "list_all (\<lambda>e. lower e = e \<and> e \<noteq> []) (concat (map snd format_variants))"
  by (simp add: format_variants_def lower_def lower_char_def)

lemma find_in_set: "find P xs = Some x \<Longrightarrow> x \<in> set xs"
  by (induction xs) (auto split: if_splits)

lemma get_correct_extension_lower:
  assumes "get_correct_extension fs p im vi au = Some c"
  shows "lower c = c \<and> c \<noteq> []"
proof -
  from assms obtain k f e where d: "detect_format fs p = Some (k, f, e)"
    by (auto simp: get_correct_extension_def split: option.splits)
  have "(k, f, e) \<in> set (map snd SIGNATURES @ map snd RIFF_SIGNATURES)"
    using detect_format_range[OF d] by auto
  moreover have "\<forall>x \<in> set (map snd SIGNATURES @ map snd RIFF_SIGNATURES).
      case x of (k, f, e) \<Rightarrow> lower e = e \<and> e \<noteq> []"
    using table_extensions_lower unfolding list_all_iff .
  ultimately have e: "lower e = e \<and> e \<noteq> []" by fastforce
  have v: "lower c = c \<and> c \<noteq> []" if "map_of format_variants f = Some vs" "c \<in> set vs" for vs
  proof -
    have "(f, vs) \<in> set format_variants" using that(1) by (rule map_of_SomeD)
    then have "c \<in> set (concat (map snd format_variants))" using that(2) by force
    then show ?thesis using variant_extensions_lower by (auto simp: list_all_iff)
  qed
  have "c = e \<or> (\<exists>vs. map_of format_variants f = Some vs \<and> c \<in> set vs)"
    using assms d
    by (auto simp: get_correct_extension_def Let_def split: if_splits option.splits
        dest: find_in_set)
  then show ?thesis using e v by blast
qed


lemma os_rename_moves:
  assumes "os_rename fs src dst = Some fs'" and "dst \<noteq> src"
  shows "map_of (files fs') dst = map_of (files fs) src \<and> \<not> is_file fs' src"
proof -
  obtain content where c: "map_of (files fs) src = Some content"
    using assms(1) by (auto simp: os_rename_def split: if_splits option.splits)
  have f: "files fs' = (dst, content) # filter (\<lambda>(q, _). q \<noteq> src \<and> q \<noteq> dst) (files fs)"
    using assms c by (auto simp: os_rename_def split: if_splits)
  have "map_of (filter (\<lambda>(q, _). q \<noteq> src \<and> q \<noteq> dst) (files fs)) src = None"
    by (auto simp: map_of_eq_None_iff)
  then show ?thesis using assms(2) c f by (simp add: is_file_def)
qed

lemma rename_target_differs:
  assumes "get_correct_extension fs p im vi au = Some c" and "lower (path_suffix p) \<noteq> c"
  shows "with_suffix p c \<noteq> p"
proof
  assume "with_suffix p c = p"
  then have "c = path_suffix p" by (rule with_suffix_same)
  then show False using get_correct_extension_lower[OF assms(1)] assms(2) by simp
qed

lemma gce_detect:
  "get_correct_extension fs p im vi au = Some c \<Longrightarrow> \<exists>k f e. detect_format fs p = Some (k, f, e)"
  by (auto simp: get_correct_extension_def split: option.splits)

text \<open>
  Claim C7.  \<^verbatim>\<open>validate_and_correct_file\<close> returns the input path and leaves the file
  system as it is when sniffing fails, when the lower-cased current extension equals the
  sniffed canonical extension, when no configured correct extension is determined, and when
  \<^verbatim>\<open>apply_rename\<close> is false.  When it comes to renaming, it returns the original path,
  with nothing renamed, if something already exists at the target name or if the rename of
  the operating system fails; if nothing exists at the target and the rename succeeds, it
  returns the new path and the renamed file system.  The returned path differs from the
  input path only if \<^verbatim>\<open>apply_rename\<close> is true and the file was renamed to that path.
\<close>

theorem validate_and_correct_file_outcomes:
  "(detect_format fs p = None \<longrightarrow>
      validate_and_correct_file fs p im vi au apply_rename = (p, fs))
   \<and> (detect_format fs p = Some (k, f, e) \<and> lower (path_suffix p) = e \<longrightarrow>
      validate_and_correct_file fs p im vi au apply_rename = (p, fs))
   \<and> (get_correct_extension fs p im vi au = None \<longrightarrow>
      validate_and_correct_file fs p im vi au apply_rename = (p, fs))
   \<and> (\<not> apply_rename \<longrightarrow>
      validate_and_correct_file fs p im vi au apply_rename = (p, fs))
   \<and> (get_correct_extension fs p im vi au = Some c \<and> path_exists fs (with_suffix p c) \<longrightarrow>
      validate_and_correct_file fs p im vi au apply_rename = (p, fs))
   \<and> (get_correct_extension fs p im vi au = Some c \<and> os_rename fs p (with_suffix p c) = None \<longrightarrow>
      validate_and_correct_file fs p im vi au apply_rename = (p, fs))
   \<and> (apply_rename \<and> detect_format fs p = Some (k, f, e) \<and> lower (path_suffix p) \<noteq> e
        \<and> get_correct_extension fs p im vi au = Some c \<and> lower (path_suffix p) \<noteq> c
        \<and> \<not> path_exists fs (with_suffix p c) \<and> os_rename fs p (with_suffix p c) = Some fs' \<longrightarrow>
      validate_and_correct_file fs p im vi au apply_rename = (with_suffix p c, fs'))
   \<and> (fst (validate_and_correct_file fs p im vi au apply_rename) \<noteq> p \<longrightarrow>
        apply_rename
        \<and> (\<exists>c'. get_correct_extension fs p im vi au = Some c'
              \<and> fst (validate_and_correct_file fs p im vi au apply_rename) = with_suffix p c'
              \<and> os_rename fs p (with_suffix p c')
                  = Some (snd (validate_and_correct_file fs p im vi au apply_rename))))
   \<and> (fst (validate_and_correct_file fs p im vi au apply_rename) = p \<longrightarrow>
        snd (validate_and_correct_file fs p im vi au apply_rename) = fs)"
proof -
  let ?V = "validate_and_correct_file fs p im vi au apply_rename"
  have c0: "c' \<noteq> []" if "get_correct_extension fs p im vi au = Some c'" for c'
    using get_correct_extension_lower[OF that] by simp
  have 1: "detect_format fs p = None \<longrightarrow> ?V = (p, fs)"
    by (simp add: validate_and_correct_file_def)
  have 2: "detect_format fs p = Some (k, f, e) \<and> lower (path_suffix p) = e \<longrightarrow> ?V = (p, fs)"
    by (simp add: validate_and_correct_file_def)
  have 3: "get_correct_extension fs p im vi au = None \<longrightarrow> ?V = (p, fs)"
    by (simp add: validate_and_correct_file_def Let_def split: option.splits)
  have 4: "\<not> apply_rename \<longrightarrow> ?V = (p, fs)"
    by (simp add: validate_and_correct_file_def Let_def split: option.splits)
  have 5: "get_correct_extension fs p im vi au = Some c \<and> path_exists fs (with_suffix p c) \<longrightarrow> ?V = (p, fs)"
    using rename_target_differs[of fs p im vi au c]
    by (auto simp: validate_and_correct_file_def Let_def split: option.splits)
  have 6: "get_correct_extension fs p im vi au = Some c \<and> os_rename fs p (with_suffix p c) = None \<longrightarrow> ?V = (p, fs)"
    by (auto simp: validate_and_correct_file_def Let_def split: option.splits)
  have 7: "apply_rename \<and> detect_format fs p = Some (k, f, e) \<and> lower (path_suffix p) \<noteq> e
        \<and> get_correct_extension fs p im vi au = Some c \<and> lower (path_suffix p) \<noteq> c
        \<and> \<not> path_exists fs (with_suffix p c) \<and> os_rename fs p (with_suffix p c) = Some fs' \<longrightarrow>
      ?V = (with_suffix p c, fs')"
    using c0[of c] by (auto simp: validate_and_correct_file_def Let_def)
  have 8: "fst ?V \<noteq> p \<longrightarrow> apply_rename
        \<and> (\<exists>c'. get_correct_extension fs p im vi au = Some c'
              \<and> fst ?V = with_suffix p c'
              \<and> os_rename fs p (with_suffix p c') = Some (snd ?V))"
    by (auto simp: validate_and_correct_file_def Let_def split: option.splits if_splits)
  have 9: "fst ?V = p \<longrightarrow> snd ?V = fs"
    using rename_target_differs[of fs p im vi au]
    by (auto simp: validate_and_correct_file_def Let_def split: option.splits if_splits)
  show ?thesis using 1 2 3 4 5 6 7 8 9 by blast
qed


lemmas sniff_eval =
  detect_format_def path_exists_def is_file_def is_dir_def read_bytes_def detect_header_def
  riff_check_def ftyp_check_def startswith_def SIGNATURES_def RIFF_SIGNATURES_def
  get_correct_extension_def format_variants_def lower_def lower_char_def path_suffix_def
  path_name_def with_suffix_def os_rename_def plain_fs_def Let_def

theorem validate_and_correct_file_outcomes_witness:
  "validate_and_correct_file (plain_fs [(''d/a.jpg'', ''GIF89a'')]) ''d/a.jpg''
       [''.jpg'', ''.gif''] [''.mp4''] None True
     = (''d/a.gif'', plain_fs [(''d/a.gif'', ''GIF89a'')])
   \<and> validate_and_correct_file (plain_fs [(''d/a.jpg'', ''GIF89a''), (''d/a.gif'', ''GIF87a'')])
       ''d/a.jpg'' [''.jpg'', ''.gif''] [''.mp4''] None True
     = (''d/a.jpg'', plain_fs [(''d/a.jpg'', ''GIF89a''), (''d/a.gif'', ''GIF87a'')])
   \<and> validate_and_correct_file ((plain_fs [(''d/a.jpg'', ''GIF89a'')])\<lparr>rename_denied := [''d/a.jpg'']\<rparr>)
       ''d/a.jpg'' [''.jpg'', ''.gif''] [''.mp4''] None True
     = (''d/a.jpg'', (plain_fs [(''d/a.jpg'', ''GIF89a'')])\<lparr>rename_denied := [''d/a.jpg'']\<rparr>)
   \<and> validate_and_correct_file (plain_fs [(''d/a.jpg'', ''hello'')]) ''d/a.jpg''
       [''.jpg'', ''.gif''] [''.mp4''] None True
     = (''d/a.jpg'', plain_fs [(''d/a.jpg'', ''hello'')])
   \<and> validate_and_correct_file (plain_fs [(''d/a.jpg'', ''GIF89a'')]) ''d/a.jpg''
       [''.jpg'', ''.gif''] [''.mp4''] None False
     = (''d/a.jpg'', plain_fs [(''d/a.jpg'', ''GIF89a'')])
   \<and> validate_and_correct_file (plain_fs [(''d/a.GIF'', ''GIF89a'')]) ''d/a.GIF''
       [''.jpg'', ''.gif''] [''.mp4''] None True
     = (''d/a.GIF'', plain_fs [(''d/a.GIF'', ''GIF89a'')])
   \<and> validate_and_correct_file (plain_fs [(''d/a.jpg'', ''GIF89a'')]) ''d/a.jpg''
       [''.jpg'', ''.png''] [''.mp4''] None True
     = (''d/a.jpg'', plain_fs [(''d/a.jpg'', ''GIF89a'')])"
proof -
  let ?im = "[''.jpg'', ''.gif'']" and ?vi = "[''.mp4'']"
  let ?A = "plain_fs [(''d/a.jpg'', ''GIF89a'')]"
  have a1: "detect_format ?A ''d/a.jpg'' = Some (''image'', ''GIF'', ''.gif'')"
    by (simp add: sniff_eval)
  have a2: "lower (path_suffix ''d/a.jpg'') \<noteq> ''.gif''"
    by (simp add: sniff_eval)
  have a3: "get_correct_extension ?A ''d/a.jpg'' ?im ?vi None = Some ''.gif''"
    unfolding get_correct_extension_def a1 by simp
  have a4: "with_suffix ''d/a.jpg'' ''.gif'' = ''d/a.gif''"
    by (simp add: sniff_eval)
  have a5: "\<not> path_exists ?A ''d/a.gif''"
    by (simp add: path_exists_def is_file_def is_dir_def plain_fs_def)
  have a6: "os_rename ?A ''d/a.jpg'' ''d/a.gif'' = Some (plain_fs [(''d/a.gif'', ''GIF89a'')])"
    by (simp add: os_rename_def plain_fs_def)
  have a: "validate_and_correct_file ?A ''d/a.jpg'' ?im ?vi None True
     = (''d/a.gif'', plain_fs [(''d/a.gif'', ''GIF89a'')])"
    using validate_and_correct_file_outcomes [where fs = ?A
        and p = "''d/a.jpg''" and im = ?im and vi = ?vi and au = None
        and apply_rename = True and k = "''image''" and f = "''GIF''" and e = "''.gif''"
        and c = "''.gif''" and fs' = "plain_fs [(''d/a.gif'', ''GIF89a'')]"]
      a1 a2 a3 a5 a6 unfolding a4 by blast
  let ?B = "plain_fs [(''d/a.jpg'', ''GIF89a''), (''d/a.gif'', ''GIF87a'')]"
  have b1: "detect_format ?B ''d/a.jpg'' = Some (''image'', ''GIF'', ''.gif'')"
    by (simp add: sniff_eval)
  have b3: "get_correct_extension ?B ''d/a.jpg'' ?im ?vi None = Some ''.gif''"
    unfolding get_correct_extension_def b1 by simp
  have b5: "path_exists ?B ''d/a.gif''"
    by (simp add: path_exists_def is_file_def is_dir_def plain_fs_def)
  have b: "validate_and_correct_file ?B ''d/a.jpg'' ?im ?vi None True = (''d/a.jpg'', ?B)"
    using validate_and_correct_file_outcomes [where fs = ?B
        and p = "''d/a.jpg''" and im = ?im and vi = ?vi and au = None
        and apply_rename = True and c = "''.gif''"]
      b3 b5 unfolding a4 by blast
  let ?C = "(plain_fs [(''d/a.jpg'', ''GIF89a'')])\<lparr>rename_denied := [''d/a.jpg'']\<rparr>"
  have c1: "detect_format ?C ''d/a.jpg'' = Some (''image'', ''GIF'', ''.gif'')"
    by (simp add: sniff_eval)
  have c3: "get_correct_extension ?C ''d/a.jpg'' ?im ?vi None = Some ''.gif''"
    unfolding get_correct_extension_def c1 by simp
  have c6: "os_rename ?C ''d/a.jpg'' ''d/a.gif'' = None"
    by (simp add: os_rename_def plain_fs_def)
  have c: "validate_and_correct_file ?C ''d/a.jpg'' ?im ?vi None True = (''d/a.jpg'', ?C)"
    using validate_and_correct_file_outcomes [where fs = ?C
        and p = "''d/a.jpg''" and im = ?im and vi = ?vi and au = None
        and apply_rename = True and c = "''.gif''"]
      c3 c6 unfolding a4 by blast
  let ?D = "plain_fs [(''d/a.jpg'', ''hello'')]"
  have d1: "detect_format ?D ''d/a.jpg'' = None"
    by (simp add: sniff_eval)
  have d: "validate_and_correct_file ?D ''d/a.jpg'' ?im ?vi None True = (''d/a.jpg'', ?D)"
    using validate_and_correct_file_outcomes [where fs = ?D
        and p = "''d/a.jpg''" and im = ?im and vi = ?vi and au = None and apply_rename = True]
      d1 by blast
  have e: "validate_and_correct_file ?A ''d/a.jpg'' ?im ?vi None False = (''d/a.jpg'', ?A)"
    using validate_and_correct_file_outcomes [where fs = ?A
        and p = "''d/a.jpg''" and im = ?im and vi = ?vi and au = None and apply_rename = False]
    by blast
  let ?F = "plain_fs [(''d/a.GIF'', ''GIF89a'')]"
  have f1: "detect_format ?F ''d/a.GIF'' = Some (''image'', ''GIF'', ''.gif'')"
    by (simp add: sniff_eval)
  have f2: "lower (path_suffix ''d/a.GIF'') = ''.gif''"
    by (simp add: sniff_eval)
  have f: "validate_and_correct_file ?F ''d/a.GIF'' ?im ?vi None True = (''d/a.GIF'', ?F)"
    using validate_and_correct_file_outcomes [where fs = ?F
        and p = "''d/a.GIF''" and im = ?im and vi = ?vi and au = None
        and apply_rename = True and k = "''image''" and f = "''GIF''" and e = "''.gif''"]
      f1 f2 by blast
  have g3: "get_correct_extension ?A ''d/a.jpg'' [''.jpg'', ''.png''] ?vi None = None"
    unfolding get_correct_extension_def a1 by (simp add: format_variants_def)
  have g: "validate_and_correct_file ?A ''d/a.jpg'' [''.jpg'', ''.png''] ?vi None True
     = (''d/a.jpg'', ?A)"
    using validate_and_correct_file_outcomes [where fs = ?A
        and p = "''d/a.jpg''" and im = "[''.jpg'', ''.png'']" and vi = ?vi and au = None
        and apply_rename = True]
      g3 by blast
  show ?thesis using a b c d e f g by simp
qed

section \<open>Downloader: destinations that already exist (claim C4)\<close>








section \<open>Downloader: failures and interrupts (claim C9)\<close>














section \<open>A download-time correction and a later scan (claim C6)\<close>

text \<open>
  The scan counts a file as having an incorrect extension exactly when the tracker holds a
  correction under the path of the file as it is on disk.
\<close>

lemma scan_file_incorrect_count:
  "incorrect_count (scan_file probe video_exts image_exts apply_corrections media_type video_file st)
     = (if get_correction (sc_tracker st) video_file \<noteq> None
        then incorrect_count st + 1 else incorrect_count st)"
  by (simp add: scan_file_def Let_def split: option.splits prod.splits)

text \<open>
  Claim C6 at a failing input.  An item whose URL ends in \<^verbatim>\<open>abc.jpg\<close> and whose body is the
  PNG signature is downloaded: the file is renamed to \<^verbatim>\<open>abc.png\<close> and the correction is
  recorded under the path \<^verbatim>\<open>abc.jpg\<close> that the file had before the rename.  The scan of the
  folder visits \<^verbatim>\<open>abc.png\<close>, finds no correction under that path and reports no incorrect
  extension.
\<close>

theorem download_correction_not_found_by_scan:
  "files (st_fs (snd (download_files demo_downloader png_env [demo_item] ''alice''
       (demo_state demo_downloader)))) = [(''out/alice/Images/abc.png'', png_magic)]
   \<and> st_tracker (snd (download_files demo_downloader png_env [demo_item] ''alice''
       (demo_state demo_downloader))) = [(''out/alice/Images/abc.jpg'', (''.jpg'', ''.png''))]
   \<and> get_correction (st_tracker (snd (download_files demo_downloader png_env [demo_item] ''alice''
       (demo_state demo_downloader)))) ''out/alice/Images/abc.png'' = None
   \<and> incorrect_count (scan_creator_images (\<lambda>p. None)
         (st_fs (snd (download_files demo_downloader png_env [demo_item] ''alice''
            (demo_state demo_downloader))))
         (st_tracker (snd (download_files demo_downloader png_env [demo_item] ''alice''
            (demo_state demo_downloader))))
         ''out/alice'' [''.jpg'', ''.png''] (Some [''.mp4'', ''.webm'']) False) = 0
   \<and> map fst (results (scan_creator_images (\<lambda>p. None)
         (st_fs (snd (download_files demo_downloader png_env [demo_item] ''alice''
            (demo_state demo_downloader))))
         (st_tracker (snd (download_files demo_downloader png_env [demo_item] ''alice''
            (demo_state demo_downloader))))
         ''out/alice'' [''.jpg'', ''.png''] (Some [''.mp4'', ''.webm'']) False)) = [''abc.png'']"
  by code_simp

theorem download_correction_not_found_by_scan_witness:
  "incorrect_count (scan_creator_images (\<lambda>p. None)
         (st_fs (snd (download_files demo_downloader png_env [demo_item] ''alice''
            (demo_state demo_downloader))))
         (st_tracker (snd (download_files demo_downloader png_env [demo_item] ''alice''
            (demo_state demo_downloader))))
         ''out/alice'' [''.jpg'', ''.png''] (Some [''.mp4'', ''.webm'']) False) = 0
   \<and> get_correction (st_tracker (snd (download_files demo_downloader png_env [demo_item] ''alice''
       (demo_state demo_downloader)))) ''out/alice/Images/abc.png'' = None"
  using download_correction_not_found_by_scan by blast

section \<open>Repair: the report after the run (claim C5)\<close>









end
